theory Spec2Isabelle
  imports Complex_Main
begin

section \<open>JavaScript values the engine computes with\<close>

text \<open>
  The engine reads \<^verbatim>\<open>server.timeout\<close>, tests it with \<^verbatim>\<open>typeof\<close> and multiplies it
  into a cutoff. A JavaScript number is a double: a finite value, \<^verbatim>\<open>NaN\<close> or an
  infinity. A finite value is held as the real number it is, and every arithmetic
  operation rounds its exact result to the nearest double, ties to the even significand
  (\<open>round_double\<close>). The sign of zero is not kept, since no comparison sees it. Strings
  and objects in the place of the timeout are not modelled.
\<close>

datatype js_number = Finite real | NaN | PosInfinity | NegInfinity

datatype js_value = JSUndefined | JSNull | JSBoolean bool | JSNumber js_number

subsection \<open>Rounding to a double\<close>

definition pow2 :: "int \<Rightarrow> real" where
  "pow2 e = (if 0 \<le> e then 2 ^ nat e else 1 / 2 ^ nat (- e))"

text \<open>The nearest integer, a tie going to the even one.\<close>

definition round_half_even :: "real \<Rightarrow> int" where
  "round_half_even q =
     (let f = \<lfloor>q\<rfloor>; d = q - of_int f
      in if d < 1 / 2 then f else if 1 / 2 < d then f + 1 else if even f then f else f + 1)"

text \<open>
  The exponent \<open>p\<close> of the spacing \<open>2\<^sup>p\<close> of the doubles around a magnitude \<open>a\<close>: the
  least \<open>p\<close> from \<open>-1074\<close> (the subnormal spacing) on with \<open>a < 2\<^sup>p\<^sup>+\<^sup>5\<^sup>3\<close>, and at most
  971, the spacing below \<open>2\<^sup>1\<^sup>0\<^sup>2\<^sup>4\<close>. It is searched downwards from 0 for magnitudes
  below \<open>2\<^sup>5\<^sup>3\<close> and upwards from 1 otherwise.
\<close>

function ulp_down :: "int \<Rightarrow> real \<Rightarrow> int" where
  "ulp_down p a = (if - 1074 < p \<and> a < pow2 (p + 52) then ulp_down (p - 1) a else p)"
  by pat_completeness auto
termination
  by (relation "measure (\<lambda>(p, a). nat (p + 1074))") auto

function ulp_up :: "int \<Rightarrow> real \<Rightarrow> int" where
  "ulp_up p a = (if a < pow2 (p + 53) \<or> 971 \<le> p then p else ulp_up (p + 1) a)"
  by pat_completeness auto
termination
  by (relation "measure (\<lambda>(p, a). nat (971 - p))") auto

declare ulp_down.simps [simp del] ulp_up.simps [simp del]

definition ulp_exponent :: "real \<Rightarrow> int" where
  "ulp_exponent a = (if a < pow2 53 then ulp_down 0 a else ulp_up 1 a)"

text \<open>
  The double nearest to a real: the nearest multiple of the spacing, the even multiple on
  a tie, and an infinity when that reaches \<open>2\<^sup>1\<^sup>0\<^sup>2\<^sup>4\<close>.
\<close>

definition round_double :: "real \<Rightarrow> js_number" where
  "round_double x =
     (if x = 0 then Finite 0
      else let p = ulp_exponent \<bar>x\<bar>;
               y = of_int (round_half_even (x / pow2 p)) * pow2 p
           in if pow2 1024 \<le> y then PosInfinity
              else if y \<le> - pow2 1024 then NegInfinity
              else Finite y)"

text \<open>The number a decimal literal of the source denotes.\<close>

definition js_literal :: "real \<Rightarrow> js_number" where
  "js_literal x = round_double x"

subsection \<open>Operators\<close>

fun typeof :: "js_value \<Rightarrow> string" where
  "typeof JSUndefined = ''undefined''"
| "typeof JSNull = ''object''"
| "typeof (JSBoolean b) = ''boolean''"
| "typeof (JSNumber n) = ''number''"

text \<open>The conversion an arithmetic operator applies to its operand.\<close>

fun to_number :: "js_value \<Rightarrow> js_number" where
  "to_number JSUndefined = NaN"
| "to_number JSNull = Finite 0"
| "to_number (JSBoolean b) = Finite (if b then 1 else 0)"
| "to_number (JSNumber n) = n"

fun js_mul :: "js_number \<Rightarrow> js_number \<Rightarrow> js_number" where
  "js_mul NaN y = NaN"
| "js_mul x NaN = NaN"
| "js_mul (Finite a) (Finite b) = round_double (a * b)"
| "js_mul (Finite a) PosInfinity =
     (if a = 0 then NaN else if 0 < a then PosInfinity else NegInfinity)"
| "js_mul (Finite a) NegInfinity =
     (if a = 0 then NaN else if 0 < a then NegInfinity else PosInfinity)"
| "js_mul PosInfinity (Finite b) =
     (if b = 0 then NaN else if 0 < b then PosInfinity else NegInfinity)"
| "js_mul NegInfinity (Finite b) =
     (if b = 0 then NaN else if 0 < b then NegInfinity else PosInfinity)"
| "js_mul PosInfinity PosInfinity = PosInfinity"
| "js_mul PosInfinity NegInfinity = NegInfinity"
| "js_mul NegInfinity PosInfinity = NegInfinity"
| "js_mul NegInfinity NegInfinity = PosInfinity"

fun js_sub :: "js_number \<Rightarrow> js_number \<Rightarrow> js_number" where
  "js_sub NaN y = NaN"
| "js_sub x NaN = NaN"
| "js_sub (Finite a) (Finite b) = round_double (a - b)"
| "js_sub (Finite a) PosInfinity = NegInfinity"
| "js_sub (Finite a) NegInfinity = PosInfinity"
| "js_sub PosInfinity (Finite b) = PosInfinity"
| "js_sub NegInfinity (Finite b) = NegInfinity"
| "js_sub PosInfinity PosInfinity = NaN"
| "js_sub PosInfinity NegInfinity = PosInfinity"
| "js_sub NegInfinity PosInfinity = NegInfinity"
| "js_sub NegInfinity NegInfinity = NaN"

text \<open>\<^verbatim>\<open>x < y\<close>; every comparison with \<^verbatim>\<open>NaN\<close> is false.\<close>

fun js_lt :: "js_number \<Rightarrow> js_number \<Rightarrow> bool" where
  "js_lt NaN y = False"
| "js_lt x NaN = False"
| "js_lt (Finite a) (Finite b) = (a < b)"
| "js_lt (Finite a) PosInfinity = True"
| "js_lt (Finite a) NegInfinity = False"
| "js_lt PosInfinity y = False"
| "js_lt NegInfinity (Finite b) = True"
| "js_lt NegInfinity PosInfinity = True"
| "js_lt NegInfinity NegInfinity = False"

definition js_gt :: "js_number \<Rightarrow> js_number \<Rightarrow> bool" where
  "js_gt x y = js_lt y x"

text \<open>\<^verbatim>\<open>x <= y\<close> on doubles that are not \<^verbatim>\<open>NaN\<close>, as the store compares scores.\<close>

definition js_le :: "js_number \<Rightarrow> js_number \<Rightarrow> bool" where
  "js_le x y = (x \<noteq> NaN \<and> y \<noteq> NaN \<and> \<not> js_lt y x)"

text \<open>
  A timestamp in milliseconds as a JavaScript number. The readings of the clock and the
  scores are integers of magnitude below \<open>2\<^sup>5\<^sup>3\<close> (a date is within \<open>8.64 * 10\<^sup>1\<^sup>5\<close> ms
  of the epoch), which are doubles as they are.
\<close>

definition js_int :: "int \<Rightarrow> js_number" where
  "js_int i = Finite (of_int i)"

subsection \<open>Decimal strings\<close>

text \<open>
  The lock record holds \<^verbatim>\<open>expiry.toString()\<close> and is read back with
  \<^verbatim>\<open>parseInt(timeout, 10)\<close>: leading white space is skipped, one sign is accepted, the
  longest run of decimal digits is the value, and no digit at all gives \<^verbatim>\<open>NaN\<close>.
  \<open>toString\<close> is the decimal notation of an integer, which is what JavaScript prints
  for the timestamps and scores of the engine (integers below \<open>10\<^sup>2\<^sup>1\<close>); white space
  is the ASCII white space.
\<close>

definition digit_char :: "nat \<Rightarrow> char" where
  "digit_char d = ''0123456789'' ! d"

definition is_digit :: "char \<Rightarrow> bool" where
  "is_digit c = (c \<in> set ''0123456789'')"

definition digit_value :: "char \<Rightarrow> nat" where
  "digit_value c = length (takeWhile (\<lambda>d. d \<noteq> c) ''0123456789'')"

fun digits :: "nat \<Rightarrow> string" where
  "digits n = (if n < 10 then [digit_char n] else digits (n div 10) @ [digit_char (n mod 10)])"

declare digits.simps [simp del]

definition toString :: "int \<Rightarrow> string" where
  "toString i = (if i < 0 then CHR ''-'' # digits (nat (- i)) else digits (nat i))"

definition is_space :: "char \<Rightarrow> bool" where
  "is_space c = (c \<in> set [CHR 0x09, CHR 0x0A, CHR 0x0B, CHR 0x0C, CHR 0x0D, CHR '' ''])"

definition strip_sign :: "string \<Rightarrow> bool \<times> string" where
  "strip_sign s =
     (case s of
        [] \<Rightarrow> (False, [])
      | c # r \<Rightarrow> if c = CHR ''-'' then (True, r) else if c = CHR ''+'' then (False, r) else (False, s))"

definition digits_value :: "string \<Rightarrow> nat" where
  "digits_value z = foldl (\<lambda>a c. 10 * a + digit_value c) 0 z"

definition parseInt :: "string \<Rightarrow> js_number" where
  "parseInt s =
     (let (negative, u) = strip_sign (dropWhile is_space s);
          z = takeWhile is_digit u
      in if z = [] then NaN
         else js_int ((if negative then - 1 else 1) * int (digits_value z)))"

section \<open>The shared store and the bus server\<close>

type_synonym client_id = string
type_synonym channel = string

text \<open>
  The keys the engine uses, all under the namespace \<^verbatim>\<open>ns\<close>:
  \<^verbatim>\<open>ns/clients\<close> (the session set), \<^verbatim>\<open>ns/clients/{id}/channels\<close>,
  \<^verbatim>\<open>ns/channels{channel}\<close>, \<^verbatim>\<open>ns/clients/{id}/messages\<close> and \<^verbatim>\<open>ns/locks/{name}\<close>.
  The five families have different prefixes or suffixes, so a key is one constructor
  (\<open>key_name_inj\<close> below: different keys have different names).
\<close>

datatype key =
    Clients
  | Channels_of client_id
  | Clients_of channel
  | Messages_of client_id
  | Lock string

text \<open>The name of a key in the store, under the namespace \<open>ns\<close>.\<close>

definition key_name :: "string \<Rightarrow> key \<Rightarrow> string" where
  "key_name ns k =
     (case k of
        Clients \<Rightarrow> ns @ ''/clients''
      | Channels_of clientId \<Rightarrow> ns @ ''/clients/'' @ clientId @ ''/channels''
      | Clients_of channel \<Rightarrow> ns @ ''/channels'' @ channel
      | Messages_of clientId \<Rightarrow> ns @ ''/clients/'' @ clientId @ ''/messages''
      | Lock lockName \<Rightarrow> ns @ ''/locks/'' @ lockName)"

text \<open>A message of the bus, with the payload type left open.\<close>

record 'd message =
  m_clientId :: "string option"
  m_channel :: channel
  m_data :: 'd
  m_id :: "string option"

text \<open>
  What leaves the engine: the events it triggers on the server, the messages it hands to
  \<^verbatim>\<open>server.deliver\<close>, what it publishes on the two notification channels of the store, and
  the invocation of a caller's completion callback. \<^verbatim>\<open>console.error\<close> and
  \<^verbatim>\<open>server.debug\<close> are not recorded.
\<close>

datatype 'd event =
    Handshake client_id
  | Subscribe client_id channel
  | Unsubscribe client_id channel
  | Disconnect client_id
  | Publish "string option" channel 'd
  | Deliver client_id "'d message list"
  | Message_notification client_id
  | Close_notification client_id
  | Callback
  | Callback_client client_id

text \<open>
  The world one engine process acts on: the contents of the store (the session set as an
  association list from member to score, sets and lists as lists of members, the lock
  records as strings), whether the connection serves commands at this moment, the clock
  that \<^verbatim>\<open>new Date().getTime()\<close> reads, and the events emitted so far. Scores are the
  integers the engine writes (0 or a timestamp in milliseconds). Every operation first
  waits for the readiness gate (\<^verbatim>\<open>_waitForInit\<close>); the operations below start when the
  gate is open, and an operation runs at one reading of the clock unless steps of other
  processes are given to it.
\<close>

record 'd world =
  store_zset :: "(client_id \<times> int) list"
  store_sets :: "key \<Rightarrow> string list"
  store_lists :: "key \<Rightarrow> string list"
  store_strings :: "key \<Rightarrow> string option"
  available :: bool
  clock :: int
  trace :: "'d event list"

definition emit :: "'d event \<Rightarrow> 'd world \<Rightarrow> 'd world" where
  "emit e w = w\<lparr>trace := trace w @ [e]\<rparr>"

subsection \<open>Commands of the store\<close>

text \<open>
  Each command is the effect it has when the store executes it, with its reply.
  \<open>command\<close> is the awaited call: it rejects (\<open>None\<close>) when the connection does not serve
  commands, and the store is then unchanged.
\<close>

definition command :: "('d world \<Rightarrow> 'a \<times> 'd world) \<Rightarrow> 'd world \<Rightarrow> ('a \<times> 'd world) option" where
  "command f w = (if available w then Some (f w) else None)"

definition zAdd :: "int \<Rightarrow> client_id \<Rightarrow> 'd world \<Rightarrow> nat \<times> 'd world" where
  "zAdd score member w =
     (if member \<in> fst ` set (store_zset w)
      then (0, w\<lparr>store_zset := map (\<lambda>(m, s). if m = member then (m, score) else (m, s)) (store_zset w)\<rparr>)
      else (1, w\<lparr>store_zset := store_zset w @ [(member, score)]\<rparr>))"

definition zAdd_NX :: "int \<Rightarrow> client_id \<Rightarrow> 'd world \<Rightarrow> nat \<times> 'd world" where
  "zAdd_NX score member w =
     (if member \<in> fst ` set (store_zset w) then (0, w)
      else (1, w\<lparr>store_zset := store_zset w @ [(member, score)]\<rparr>))"

definition zScore :: "client_id \<Rightarrow> 'd world \<Rightarrow> int option \<times> 'd world" where
  "zScore member w = (map_of (store_zset w) member, w)"

definition zRem :: "client_id \<Rightarrow> 'd world \<Rightarrow> nat \<times> 'd world" where
  "zRem member w =
     (if member \<in> fst ` set (store_zset w)
      then (1, w\<lparr>store_zset := filter (\<lambda>(m, s). m \<noteq> member) (store_zset w)\<rparr>)
      else (0, w))"

definition sAdd :: "key \<Rightarrow> string \<Rightarrow> 'd world \<Rightarrow> nat \<times> 'd world" where
  "sAdd k member w =
     (if member \<in> set (store_sets w k) then (0, w)
      else (1, w\<lparr>store_sets := (store_sets w)(k := store_sets w k @ [member])\<rparr>))"

definition sRem :: "key \<Rightarrow> string \<Rightarrow> 'd world \<Rightarrow> nat \<times> 'd world" where
  "sRem k member w =
     (if member \<in> set (store_sets w k)
      then (1, w\<lparr>store_sets := (store_sets w)(k := removeAll member (store_sets w k))\<rparr>)
      else (0, w))"

definition sMembers :: "key \<Rightarrow> 'd world \<Rightarrow> string list \<times> 'd world" where
  "sMembers k w = (store_sets w k, w)"

text \<open>
  \<^verbatim>\<open>SUNION\<close> takes at least one key: the store rejects the command sent with none, as
  it rejects any command while the connection does not serve.
\<close>

definition sUnion :: "key list \<Rightarrow> 'd world \<Rightarrow> (string list \<times> 'd world) option" where
  "sUnion ks w =
     (if \<not> available w \<or> ks = [] then None
      else Some (remdups (concat (map (store_sets w) ks)), w))"

definition rPush :: "key \<Rightarrow> string \<Rightarrow> 'd world \<Rightarrow> nat \<times> 'd world" where
  "rPush k element w =
     (length (store_lists w k) + 1, w\<lparr>store_lists := (store_lists w)(k := store_lists w k @ [element])\<rparr>)"

definition lRange_all :: "key \<Rightarrow> 'd world \<Rightarrow> string list \<times> 'd world" where
  "lRange_all k w = (store_lists w k, w)"

definition key_exists :: "key \<Rightarrow> 'd world \<Rightarrow> bool" where
  "key_exists k w =
     (store_sets w k \<noteq> [] \<or> store_lists w k \<noteq> [] \<or> store_strings w k \<noteq> None
      \<or> (k = Clients \<and> store_zset w \<noteq> []))"

definition del :: "key \<Rightarrow> 'd world \<Rightarrow> nat \<times> 'd world" where
  "del k w =
     (if key_exists k w then 1 else 0,
      w\<lparr>store_zset := (if k = Clients then [] else store_zset w),
        store_sets := (store_sets w)(k := []),
        store_lists := (store_lists w)(k := []),
        store_strings := (store_strings w)(k := None)\<rparr>)"

definition setNX :: "key \<Rightarrow> string \<Rightarrow> 'd world \<Rightarrow> bool \<times> 'd world" where
  "setNX k v w =
     (if store_strings w k = None then (True, w\<lparr>store_strings := (store_strings w)(k \<mapsto> v)\<rparr>)
      else (False, w))"

definition get :: "key \<Rightarrow> 'd world \<Rightarrow> string option \<times> 'd world" where
  "get k w = (store_strings w k, w)"

definition set_GET :: "key \<Rightarrow> string \<Rightarrow> 'd world \<Rightarrow> string option \<times> 'd world" where
  "set_GET k v w = (store_strings w k, w\<lparr>store_strings := (store_strings w)(k \<mapsto> v)\<rparr>)"

definition publish_message :: "client_id \<Rightarrow> 'd world \<Rightarrow> nat \<times> 'd world" where
  "publish_message clientId w = (0, emit (Message_notification clientId) w)"

definition publish_close :: "client_id \<Rightarrow> 'd world \<Rightarrow> nat \<times> 'd world" where
  "publish_close clientId w = (0, emit (Close_notification clientId) w)"

section \<open>Subscription index\<close>

definition subscribe :: "client_id \<Rightarrow> channel \<Rightarrow> 'd world \<Rightarrow> 'd world" where
  "subscribe clientId channel w =
     (case command (sAdd (Channels_of clientId) channel) w of
        None \<Rightarrow> emit Callback w
      | Some (added, w1) \<Rightarrow>
          let w2 = (if added = 1 then emit (Subscribe clientId channel) w1 else w1)
          in (case command (sAdd (Clients_of channel) clientId) w2 of
                None \<Rightarrow> emit Callback w2
              | Some (_, w3) \<Rightarrow> emit Callback w3))"

definition unsubscribe :: "client_id \<Rightarrow> channel \<Rightarrow> 'd world \<Rightarrow> 'd world" where
  "unsubscribe clientId channel w =
     (case command (sRem (Channels_of clientId) channel) w of
        None \<Rightarrow> emit Callback w
      | Some (removed, w1) \<Rightarrow>
          let w2 = (if removed = 1 then emit (Unsubscribe clientId channel) w1 else w1)
          in (case command (sRem (Clients_of channel) clientId) w2 of
                None \<Rightarrow> emit Callback w2
              | Some (_, w3) \<Rightarrow> emit Callback w3))"

section \<open>Atomic batches\<close>

text \<open>
  \<^verbatim>\<open>multi()\<close> queues commands and \<^verbatim>\<open>exec()\<close> runs them as one transaction, giving
  the list of their replies in the order they were queued.
\<close>

datatype multi_command =
    ZADD int client_id
  | SREM key string
  | DEL key
  | ZREM client_id
  | PUBLISH_close client_id
  | LRANGE_all key

datatype reply = Integer_reply nat | Array_reply "string list"

fun run_queued :: "multi_command \<Rightarrow> 'd world \<Rightarrow> reply \<times> 'd world" where
  "run_queued (ZADD score member) w = (let (n, w1) = zAdd score member w in (Integer_reply n, w1))"
| "run_queued (SREM k member) w = (let (n, w1) = sRem k member w in (Integer_reply n, w1))"
| "run_queued (DEL k) w = (let (n, w1) = del k w in (Integer_reply n, w1))"
| "run_queued (ZREM member) w = (let (n, w1) = zRem member w in (Integer_reply n, w1))"
| "run_queued (PUBLISH_close clientId) w =
     (let (n, w1) = publish_close clientId w in (Integer_reply n, w1))"
| "run_queued (LRANGE_all k) w = (let (xs, w1) = lRange_all k w in (Array_reply xs, w1))"

fun exec_queue :: "multi_command list \<Rightarrow> 'd world \<Rightarrow> reply list \<times> 'd world" where
  "exec_queue [] w = ([], w)"
| "exec_queue (c # cs) w =
     (let (r, w1) = run_queued c w; (rs, w2) = exec_queue cs w1 in (r # rs, w2))"

definition exec :: "multi_command list \<Rightarrow> 'd world \<Rightarrow> (reply list \<times> 'd world) option" where
  "exec cs w = command (exec_queue cs) w"

text \<open>\<^verbatim>\<open>results[i]\<close>: \<^verbatim>\<open>undefined\<close> (\<open>None\<close>) beyond the end of the array.\<close>

definition result_at :: "reply list \<Rightarrow> nat \<Rightarrow> reply option" where
  "result_at results i = (if i < length results then Some (results ! i) else None)"

section \<open>Client session store\<close>

definition ping :: "js_value \<Rightarrow> client_id \<Rightarrow> 'd world \<Rightarrow> 'd world" where
  "ping timeout clientId w =
     (if typeof timeout \<noteq> ''number'' then w
      else let time = clock w
           in (case command (zAdd time clientId) w of
                 None \<Rightarrow> w
               | Some (_, w1) \<Rightarrow> w1))"

text \<open>
  \<open>generateId\<close> is the server's generator: its \<open>n\<close>-th call returns \<open>generateId n\<close>.
  The result is the identifier passed to the callback (none when the store rejected the
  command), the number of calls made to the generator, and the world. The retry is
  unbounded, so the function is partial: \<open>None\<close> is a creation that never returns.
  \<open>ping\<close> is called before the event and the callback, as in the source; it only
  writes the score, which is 0 until that write.
\<close>

partial_function (option) createClient ::
  "(nat \<Rightarrow> client_id) \<Rightarrow> nat \<Rightarrow> js_value \<Rightarrow> 'd world \<Rightarrow> (client_id option \<times> nat \<times> 'd world) option"
where
  "createClient generateId n timeout w =
     (let clientId = generateId n
      in (case command (zAdd_NX 0 clientId) w of
            None \<Rightarrow> Some (None, Suc n, w)
          | Some (added, w1) \<Rightarrow>
              if added = 0 then createClient generateId (Suc n) timeout w1
              else Some (Some clientId, Suc n,
                     emit (Callback_client clientId)
                       (emit (Handshake clientId) (ping timeout clientId w1)))))"

definition exists_cutoff :: "js_value \<Rightarrow> 'd world \<Rightarrow> js_number" where
  "exists_cutoff timeout w =
     js_sub (js_int (clock w))
       (js_mul (js_mul (js_literal 1000) (js_literal 1.6)) (to_number timeout))"

text \<open>
  The value passed to the callback. \<^verbatim>\<open>score ? ... : false\<close> takes \<^verbatim>\<open>null\<close> and the
  number 0 alike as false; \<^verbatim>\<open>parseInt(score, 10)\<close> reads the decimal string of the score.
\<close>

definition clientExists :: "js_value \<Rightarrow> client_id \<Rightarrow> 'd world \<Rightarrow> bool" where
  "clientExists timeout clientId w =
     (let cutoff = exists_cutoff timeout w
      in (case command (zScore clientId) w of
            None \<Rightarrow> False
          | Some (score, _) \<Rightarrow>
              (case score of
                 None \<Rightarrow> False
               | Some s \<Rightarrow> if s \<noteq> 0 then js_gt (parseInt (toString s)) cutoff else False)))"

definition destroy_commands :: "client_id \<Rightarrow> channel list \<Rightarrow> multi_command list" where
  "destroy_commands clientId channels =
     [ZADD 0 clientId]
     @ concat (map (\<lambda>channel. [SREM (Channels_of clientId) channel,
                                 SREM (Clients_of channel) clientId]) channels)
     @ [DEL (Messages_of clientId), ZREM clientId, PUBLISH_close clientId]"

text \<open>\<^verbatim>\<open>channels.forEach((channel, i) => ...)\<close>, from index \<open>i\<close> on.\<close>

fun notify_unsubscribed ::
  "client_id \<Rightarrow> channel list \<Rightarrow> nat \<Rightarrow> reply list \<Rightarrow> 'd world \<Rightarrow> 'd world" where
  "notify_unsubscribed clientId [] i results w = w"
| "notify_unsubscribed clientId (channel # rest) i results w =
     notify_unsubscribed clientId rest (Suc i) results
       (if result_at results (2 * i + 1) \<noteq> Some (Integer_reply 1) then w
        else emit (Unsubscribe clientId channel) w)"

text \<open>
  \<open>others\<close> is what other processes do to the world between the read of the client's
  channels and the batch (the one point where this operation is suspended with a decision
  already taken).
\<close>

definition destroyClient :: "('d world \<Rightarrow> 'd world) \<Rightarrow> client_id \<Rightarrow> 'd world \<Rightarrow> 'd world" where
  "destroyClient others clientId w =
     (case command (sMembers (Channels_of clientId)) w of
        None \<Rightarrow> emit Callback w
      | Some (channels, w1) \<Rightarrow>
          let w2 = others w1
          in (case exec (destroy_commands clientId channels) w2 of
                None \<Rightarrow> emit Callback w2
              | Some (results, w3) \<Rightarrow>
                  emit Callback
                    (emit (Disconnect clientId)
                       (notify_unsubscribed clientId channels 0 results w3))))"

section \<open>Message queue and fan-out\<close>

text \<open>
  The loop over the resolved clients. \<open>Inl\<close> is a rejected command: the rest of the
  operation is abandoned there.
\<close>

fun publish_loop ::
  "string \<Rightarrow> js_value \<Rightarrow> client_id list \<Rightarrow> 'd world \<Rightarrow> 'd world + 'd world" where
  "publish_loop jsonMessage timeout [] w = Inr w"
| "publish_loop jsonMessage timeout (clientId # rest) w =
     (let queue = Messages_of clientId
      in (case command (rPush queue jsonMessage) w of
            None \<Rightarrow> Inl w
          | Some (_, w1) \<Rightarrow>
              (case command (publish_message clientId) w1 of
                 None \<Rightarrow> Inl w1
               | Some (_, w2) \<Rightarrow>
                   if \<not> clientExists timeout clientId w2
                   then (case command (del queue) w2 of
                           None \<Rightarrow> Inl w2
                         | Some (_, w3) \<Rightarrow> publish_loop jsonMessage timeout rest w3)
                   else publish_loop jsonMessage timeout rest w2)))"

text \<open>\<open>stringify\<close> is \<^verbatim>\<open>JSON.stringify\<close> on messages.\<close>

definition publish ::
  "('d message \<Rightarrow> string) \<Rightarrow> js_value \<Rightarrow> 'd message \<Rightarrow> channel list \<Rightarrow> 'd world \<Rightarrow> 'd world" where
  "publish stringify timeout message channels w =
     (let jsonMessage = stringify message;
          keys = map Clients_of channels
      in (case sUnion keys w of
            None \<Rightarrow> w
          | Some (clients, w1) \<Rightarrow>
              (case publish_loop jsonMessage timeout clients w1 of
                 Inl w2 \<Rightarrow> w2
               | Inr w2 \<Rightarrow>
                   emit (Publish (m_clientId message) (m_channel message) (m_data message)) w2)))"

text \<open>
  \<open>parse\<close> is \<^verbatim>\<open>JSON.parse\<close> (\<open>None\<close> when it throws) and \<open>hasConnection\<close> the
  server's test for a local connection.
\<close>

definition emptyQueue ::
  "(string \<Rightarrow> 'd message option) \<Rightarrow> (client_id \<Rightarrow> bool) \<Rightarrow> client_id \<Rightarrow> 'd world \<Rightarrow> 'd world" where
  "emptyQueue parse hasConnection clientId w =
     (if \<not> hasConnection clientId then w
      else let k = Messages_of clientId
           in (case exec [LRANGE_all k, DEL k] w of
                 None \<Rightarrow> w
               | Some (results, w1) \<Rightarrow>
                   (case result_at results 0 of
                      Some (Array_reply jsonMessages) \<Rightarrow>
                        if length jsonMessages > 0
                        then (case those (map parse jsonMessages) of
                                None \<Rightarrow> w1
                              | Some messages \<Rightarrow> emit (Deliver clientId messages) w1)
                        else w1
                    | _ \<Rightarrow> w1)))"

section \<open>Distributed lock and sweep\<close>

definition LOCK_TIMEOUT :: int where
  "LOCK_TIMEOUT = 120"

text \<open>The closure \<^verbatim>\<open>releaseLock\<close> of one attempt, applied to the world at release time.\<close>

definition releaseLock :: "key \<Rightarrow> int \<Rightarrow> 'd world \<Rightarrow> 'd world" where
  "releaseLock lockKey expiry w =
     (if clock w < expiry
      then (case command (del lockKey) w of
              None \<Rightarrow> w
            | Some (_, w1) \<Rightarrow> w1)
      else w)"

text \<open>
  \<open>others1\<close> and \<open>others2\<close> are what other processes (and the passing of time) do to the
  world while this attempt is suspended between its create-if-absent and its read, and
  between its read and its get-and-set. The callback receives the release closure.
\<close>

definition withLock ::
  "string \<Rightarrow> (('d world \<Rightarrow> 'd world) \<Rightarrow> 'd world \<Rightarrow> 'd world)
     \<Rightarrow> ('d world \<Rightarrow> 'd world) \<Rightarrow> ('d world \<Rightarrow> 'd world) \<Rightarrow> 'd world \<Rightarrow> 'd world" where
  "withLock lockName callback others1 others2 w =
     (let lockKey = Lock lockName;
          currentTime = clock w;
          expiry = currentTime + LOCK_TIMEOUT * 1000 + 1;
          release = releaseLock lockKey expiry
      in (case command (setNX lockKey (toString expiry)) w of
            None \<Rightarrow> w
          | Some (set_reply, w1) \<Rightarrow>
              if set_reply then callback release w1
              else
                let w2 = others1 w1
                in (case command (get lockKey) w2 of
                      None \<Rightarrow> w2
                    | Some (timeout, w3) \<Rightarrow>
                        (case timeout of
                           None \<Rightarrow> w3
                         | Some t \<Rightarrow>
                             if t = [] then w3
                             else
                               let lockTimeout = parseInt t
                               in if js_lt (js_int currentTime) lockTimeout then w3
                                  else
                                    let w4 = others2 w3
                                    in (case command (set_GET lockKey (toString expiry)) w4 of
                                          None \<Rightarrow> w4
                                        | Some (oldValue, w5) \<Rightarrow>
                                            if oldValue = Some t then callback release w5
                                            else w5)))))"

text \<open>
  \<^verbatim>\<open>ZRANGEBYSCORE\<close> with both bounds inclusive; the store rejects a bound that is
  \<^verbatim>\<open>NaN\<close>. The members come in the order of the association list.
\<close>

definition zRangeByScore ::
  "js_number \<Rightarrow> js_number \<Rightarrow> 'd world \<Rightarrow> (client_id list \<times> 'd world) option" where
  "zRangeByScore lo hi w =
     (if \<not> available w \<or> lo = NaN \<or> hi = NaN then None
      else Some (map fst (filter (\<lambda>(m, s). js_le lo (js_int s) \<and> js_le (js_int s) hi) (store_zset w)), w))"

definition sweep_cutoff :: "js_value \<Rightarrow> 'd world \<Rightarrow> js_number" where
  "sweep_cutoff timeout w =
     js_sub (js_int (clock w))
       (js_mul (js_mul (js_literal 1000) (js_literal 2)) (to_number timeout))"

text \<open>
  The loop over the stale clients with the counter \<^verbatim>\<open>completed\<close> of the sweep;
  \<open>n\<close> is \<^verbatim>\<open>clients.length\<close>.
  \<open>destroyClient\<close> invokes its callback exactly once, as its last action, so the body
  of the callback follows it here; the destroys run one after the other.
\<close>

fun gc_loop ::
  "nat \<Rightarrow> ('d world \<Rightarrow> 'd world) \<Rightarrow> client_id list \<Rightarrow> nat \<Rightarrow> 'd world \<Rightarrow> 'd world" where
  "gc_loop n release [] completed w = w"
| "gc_loop n release (clientId # rest) completed w =
     (let w1 = destroyClient id clientId w;
          completed1 = completed + 1;
          w2 = (if completed1 = n then release w1 else w1)
      in gc_loop n release rest completed1 w2)"

definition gc_sweep :: "js_value \<Rightarrow> ('d world \<Rightarrow> 'd world) \<Rightarrow> 'd world \<Rightarrow> 'd world" where
  "gc_sweep timeout release w =
     (let cutoff = sweep_cutoff timeout w
      in (case zRangeByScore (Finite 0) cutoff w of
            None \<Rightarrow> w
          | Some (clients, w1) \<Rightarrow>
              if length clients = 0 then release w1
              else gc_loop (length clients) release clients 0 w1))"

definition gc ::
  "js_value \<Rightarrow> ('d world \<Rightarrow> 'd world) \<Rightarrow> ('d world \<Rightarrow> 'd world) \<Rightarrow> 'd world \<Rightarrow> 'd world" where
  "gc timeout others1 others2 w =
     (if typeof timeout \<noteq> ''number'' then w
      else withLock ''gc'' (gc_sweep timeout) others1 others2 w)"

section \<open>Notions used in the statements\<close>

text \<open>The two removals that \<open>destroy_commands\<close> queues for each channel.\<close>

definition channel_commands :: "client_id \<Rightarrow> channel list \<Rightarrow> multi_command list" where
  "channel_commands clientId channels =
     concat (map (\<lambda>channel. [SREM (Channels_of clientId) channel,
                                 SREM (Clients_of channel) clientId]) channels)"

text \<open>The reply of \<^verbatim>\<open>SREM\<close>: 1 when the member was there, 0 when nothing changed.\<close>

definition removal_reply :: "'d world \<Rightarrow> key \<Rightarrow> string \<Rightarrow> reply" where
  "removal_reply w k member = Integer_reply (if member \<in> set (store_sets w k) then 1 else 0)"

definition published_by :: "multi_command \<Rightarrow> 'd event list" where
  "published_by c =
     (case c of PUBLISH_close clientId \<Rightarrow> [Close_notification clientId] | _ \<Rightarrow> [])"

text \<open>One round of the loop of \<open>publish\<close> when the store serves every command.\<close>

definition publish_step :: "string \<Rightarrow> js_value \<Rightarrow> client_id \<Rightarrow> 'd world \<Rightarrow> 'd world" where
  "publish_step jsonMessage timeout clientId w =
     (let w2 = emit (Message_notification clientId) (snd (rPush (Messages_of clientId) jsonMessage w))
      in if clientExists timeout clientId w2 then w2 else snd (del (Messages_of clientId) w2))"

text \<open>The clients \<^verbatim>\<open>SUNION\<close> resolves for a list of channels.\<close>

definition subscribers :: "channel list \<Rightarrow> 'd world \<Rightarrow> client_id list" where
  "subscribers channels w = remdups (concat (map (\<lambda>channel. store_sets w (Clients_of channel)) channels))"

text \<open>The world in which \<open>createClient\<close> invokes its callback with a new identifier.\<close>

definition created :: "js_value \<Rightarrow> client_id \<Rightarrow> 'd world \<Rightarrow> 'd world" where
  "created timeout clientId w =
     emit (Callback_client clientId)
       (emit (Handshake clientId)
          (ping timeout clientId (w\<lparr>store_zset := store_zset w @ [(clientId, 0)]\<rparr>)))"

text \<open>
  The sessions a sweep selects: score from 0 up to the cutoff it computes, both included.
\<close>

definition stale_clients :: "js_value \<Rightarrow> 'd world \<Rightarrow> client_id list" where
  "stale_clients timeout w =
     map fst (filter (\<lambda>(m, s). js_le (Finite 0) (js_int s)
                                  \<and> js_le (js_int s) (sweep_cutoff timeout w))
                (store_zset w))"

text \<open>The commands that the batch of a destroy of client \<open>c\<close> may hold.\<close>

definition about :: "client_id \<Rightarrow> multi_command \<Rightarrow> bool" where
  "about c cmd =
     (case cmd of
        ZADD score member \<Rightarrow> member = c
      | SREM k member \<Rightarrow> (case k of Channels_of x \<Rightarrow> x = c | Clients_of channel \<Rightarrow> member = c | _ \<Rightarrow> False)
      | DEL k \<Rightarrow> k = Messages_of c
      | ZREM member \<Rightarrow> member = c
      | PUBLISH_close member \<Rightarrow> True
      | LRANGE_all k \<Rightarrow> True)"

text \<open>
  What a sweep leaves alone for a client: its score, its own set of channels, its queue,
  and whether it is in the set of clients of a channel.
\<close>

definition untouched :: "client_id \<Rightarrow> channel \<Rightarrow> 'd world \<Rightarrow> 'd world \<Rightarrow> bool" where
  "untouched c channel w w' \<longleftrightarrow>
     map_of (store_zset w') c = map_of (store_zset w) c
     \<and> store_sets w' (Channels_of c) = store_sets w (Channels_of c)
     \<and> store_lists w' (Messages_of c) = store_lists w (Messages_of c)
     \<and> (c \<in> set (store_sets w' (Clients_of channel)) \<longleftrightarrow> c \<in> set (store_sets w (Clients_of channel)))"

subsection \<open>Example worlds\<close>

text \<open>An empty store.\<close>

definition empty_world :: "unit world" where
  "empty_world =
     \<lparr>store_zset = [], store_sets = (\<lambda>k. []), store_lists = (\<lambda>k. []),
      store_strings = (\<lambda>k. None), available = True, clock = 1700000000000, trace = []\<rparr>"

text \<open>A session whose score is 0.\<close>

definition touched_world :: "unit world" where
  "touched_world =
     \<lparr>store_zset = [(''c'', 0)], store_sets = (\<lambda>k. []), store_lists = (\<lambda>k. []),
      store_strings = (\<lambda>k. None), available = True, clock = 1700000000000, trace = []\<rparr>"

text \<open>
  A client whose own set of channels holds \<^verbatim>\<open>/a\<close> while the set of clients of
  \<^verbatim>\<open>/a\<close> does not hold the client: the state between the two additions of a subscribe.
\<close>

definition half_subscribed_world :: "unit world" where
  "half_subscribed_world =
     \<lparr>store_zset = [(''c'', 1700000000000)],
      store_sets = (\<lambda>k. if k = Channels_of ''c'' then [''/a''] else []),
      store_lists = (\<lambda>k. []),
      store_strings = (\<lambda>k. None), available = True, clock = 1700000000000, trace = []\<rparr>"

text \<open>A lock taken at 1700000000000, seen one minute later and after its expiry.\<close>

definition held_world :: "unit world" where
  "held_world =
     \<lparr>store_zset = [], store_sets = (\<lambda>k. []), store_lists = (\<lambda>k. []),
      store_strings = (\<lambda>k. if k = Lock ''gc'' then Some ''1700000120001'' else None),
      available = True, clock = 1700000060000, trace = []\<rparr>"

definition expired_world :: "unit world" where
  "expired_world = held_world\<lparr>clock := 1700000200000\<rparr>"

definition rival_steals :: "unit world \<Rightarrow> unit world" where
  "rival_steals w = w\<lparr>store_strings := (store_strings w)(Lock ''gc'' \<mapsto> ''1700000320000'')\<rparr>"

text \<open>A store that already holds the identifier the generator returns first, twice.\<close>

definition dup_world :: "unit world" where
  "dup_world =
     \<lparr>store_zset = [(''dup'', 1700000000000)], store_sets = (\<lambda>k. []), store_lists = (\<lambda>k. []),
      store_strings = (\<lambda>k. None), available = True, clock = 1700000000000, trace = []\<rparr>"

definition dup_generator :: "nat \<Rightarrow> client_id" where
  "dup_generator i = (if i < 2 then ''dup'' else if i = 2 then ''u2'' else ''u3'')"

text \<open>
  One message with a serialisation that is read back, and a store with a live client on
  two channels and a client of score 0 on one of them.
\<close>

definition example_message :: "string message" where
  "example_message = \<lparr>m_clientId = Some ''p'', m_channel = ''/a'', m_data = ''hello'', m_id = None\<rparr>"

definition example_json :: string where
  "example_json = ''{clientId:p,channel:/a,data:hello}''"

definition example_stringify :: "string message \<Rightarrow> string" where
  "example_stringify m = (if m = example_message then example_json else ''null'')"

definition example_parse :: "string \<Rightarrow> string message option" where
  "example_parse s = (if s = example_json then Some example_message else None)"

definition fanout_world :: "string world" where
  "fanout_world =
     \<lparr>store_zset = [(''c1'', 1700000000000), (''c2'', 0)],
      store_sets = (\<lambda>k. if k = Clients_of ''/a'' then [''c1'']
                        else if k = Clients_of ''/b'' then [''c1'', ''c2'']
                        else if k = Channels_of ''c1'' then [''/a'', ''/b'']
                        else if k = Channels_of ''c2'' then [''/b''] else []),
      store_lists = (\<lambda>k. []),
      store_strings = (\<lambda>k. None), available = True, clock = 1700000010000, trace = []\<rparr>"

text \<open>
  A session whose score is exactly the cutoff of a sweep with a timeout of 5 s, and a
  store with one session older than that cutoff and one more recent.
\<close>

definition boundary_world :: "unit world" where
  "boundary_world = half_subscribed_world\<lparr>clock := 1700000010000\<rparr>"

definition sweep_world :: "unit world" where
  "sweep_world =
     \<lparr>store_zset = [(''old'', 1699999990000), (''new'', 1700000009000)],
      store_sets = (\<lambda>k. if k = Channels_of ''old'' then [''/a'']
                        else if k = Channels_of ''new'' then [''/a'']
                        else if k = Clients_of ''/a'' then [''old'', ''new''] else []),
      store_lists = (\<lambda>k. if k = Messages_of ''old'' then [''m''] else []),
      store_strings = (\<lambda>k. if k = Lock ''gc'' then Some ''1700000130001'' else None),
      available = True, clock = 1700000010000, trace = []\<rparr>"

text \<open>
  The double nearest to 1.1, and a session whose score is 2200 ms before the clock: with
  that timeout the product \<^verbatim>\<open>1000 * 2 * timeout\<close> is slightly above 2200 and rounds to
  2200.
\<close>

definition nearest_1_1 :: real where
  "nearest_1_1 = 4953959590107546 / 2 ^ 52"

definition rounding_world :: "unit world" where
  "rounding_world = boundary_world\<lparr>store_zset := [(''c'', 1700000007800)]\<rparr>"

section \<open>Keys have different names\<close>

lemma suffix_of_equal_length:
  assumes "length ys = length zs"
  shows "xs @ ys = us @ zs \<longleftrightarrow> xs = us \<and> ys = zs"
  using assms by (auto simp: append_eq_append_conv)

lemma key_name_inj: "key_name ns k = key_name ns k' \<Longrightarrow> k = k'"
proof (cases k; cases k')
  fix a b assume "k = Channels_of a" "k' = Messages_of b" and eq: "key_name ns k = key_name ns k'"
  then have "a @ ''/channels'' = b @ ''/messages''" by (simp add: key_name_def)
  then show "k = k'" by (simp add: suffix_of_equal_length)
next
  fix a b assume "k = Messages_of a" "k' = Channels_of b" and eq: "key_name ns k = key_name ns k'"
  then have "a @ ''/messages'' = b @ ''/channels''" by (simp add: key_name_def)
  then show "k = k'" by (simp add: suffix_of_equal_length)
qed (auto simp: key_name_def)

section \<open>Decimal strings are read back as written\<close>

lemma digit_cases: "d < 10 \<Longrightarrow> d \<in> {0, 1, 2, 3, 4, 5, 6, 7, 8, 9::nat}"
  by auto

lemma digit_char_props:
  assumes "d < 10"
  shows "is_digit (digit_char d)" and "digit_value (digit_char d) = d"
    and "\<not> is_space (digit_char d)" and "digit_char d \<noteq> CHR ''-''" and "digit_char d \<noteq> CHR ''+''"
  using digit_cases [OF assms]
  by (auto simp: digit_char_def is_digit_def digit_value_def is_space_def)

lemma digits_all: "\<forall>c \<in> set (digits n). is_digit c"
proof (induction n rule: digits.induct)
  case (1 n)
  show ?case
  proof (cases "n < 10")
    case True
    then show ?thesis by (subst digits.simps) (simp add: digit_char_props)
  next
    case False
    with 1 show ?thesis by (subst digits.simps) (simp add: digit_char_props)
  qed
qed

lemma digits_nonempty: "digits n \<noteq> []"
  by (subst digits.simps) simp

lemma digits_value_append: "digits_value (xs @ [c]) = 10 * digits_value xs + digit_value c"
  by (simp add: digits_value_def)

lemma digits_value_digits: "digits_value (digits n) = n"
proof (induction n rule: digits.induct)
  case (1 n)
  show ?case
  proof (cases "n < 10")
    case True
    then show ?thesis by (subst digits.simps) (simp add: digit_char_props digits_value_def)
  next
    case False
    with 1 show ?thesis
      by (subst digits.simps) (simp add: digits_value_append digit_char_props)
  qed
qed

lemma is_digit_not_space: "is_digit c \<Longrightarrow> \<not> is_space c \<and> c \<noteq> CHR ''-'' \<and> c \<noteq> CHR ''+''"
  by (auto simp: is_digit_def is_space_def)

lemma parseInt_digits: "parseInt (digits n) = js_int (int n)"
proof -
  obtain c r where cr: "digits n = c # r"
    using digits_nonempty [of n] by (cases "digits n") auto
  have all: "\<forall>x \<in> set (digits n). is_digit x" by (rule digits_all)
  then have c: "is_digit c" using cr by simp
  have 1: "dropWhile is_space (digits n) = digits n"
    using c cr is_digit_not_space by simp
  have 2: "strip_sign (digits n) = (False, digits n)"
    using c cr is_digit_not_space by (simp add: strip_sign_def)
  have 3: "takeWhile is_digit (digits n) = digits n"
    using all by (simp add: takeWhile_eq_all_conv)
  show ?thesis
    by (simp add: parseInt_def 1 2 3 digits_nonempty digits_value_digits)
qed

lemma parseInt_minus_digits: "parseInt (CHR ''-'' # digits n) = js_int (- int n)"
proof -
  have all: "\<forall>x \<in> set (digits n). is_digit x" by (rule digits_all)
  have 3: "takeWhile is_digit (digits n) = digits n"
    using all by (simp add: takeWhile_eq_all_conv)
  show ?thesis
    by (simp add: parseInt_def strip_sign_def is_space_def 3 digits_nonempty digits_value_digits)
qed

lemma parseInt_toString: "parseInt (toString i) = js_int i"
  by (simp add: toString_def parseInt_digits parseInt_minus_digits)

lemma toString_nonempty: "toString i \<noteq> []"
  by (simp add: toString_def digits_nonempty)

section \<open>Double arithmetic of the cutoffs\<close>

lemmas round_eval = round_double_def ulp_exponent_def ulp_down.simps ulp_up.simps pow2_def
  round_half_even_def Let_def

lemma round_double_not_NaN: "round_double x \<noteq> NaN"
  by (simp add: round_double_def Let_def)

lemma js_literal_1_6: "js_literal 1.6 = Finite (7205759403792794 / 2 ^ 52)"
  by (simp add: js_literal_def round_eval)

lemma exists_factor: "js_mul (js_literal 1000) (js_literal 1.6) = Finite 1600"
proof -
  have "js_literal 1000 = Finite 1000"
    by (simp add: js_literal_def round_eval)
  moreover have "round_double (1000 * (7205759403792794 / 2 ^ 52)) = Finite 1600"
    by (simp add: round_eval)
  ultimately show ?thesis unfolding js_literal_1_6 by simp
qed

lemma sweep_factor: "js_mul (js_literal 1000) (js_literal 2) = Finite 2000"
proof -
  have "js_literal 1000 = Finite 1000" and "js_literal 2 = Finite 2"
    by (simp_all add: js_literal_def round_eval)
  moreover have "round_double 2000 = Finite 2000"
    by (simp add: round_eval)
  ultimately show ?thesis by simp
qed

lemma js_mul_not_NaN: "c \<noteq> 0 \<Longrightarrow> n \<noteq> NaN \<Longrightarrow> js_mul (Finite c) n \<noteq> NaN"
  by (cases n) (simp_all add: round_double_not_NaN)

lemma js_sub_not_NaN: "n \<noteq> NaN \<Longrightarrow> js_sub (Finite a) n \<noteq> NaN"
  by (cases n) (simp_all add: round_double_not_NaN)

section \<open>Scores and the existence check\<close>

lemma js_gt_int_Finite: "js_gt (js_int s) (Finite c) \<longleftrightarrow> c < real_of_int s"
  by (simp add: js_gt_def js_int_def)

lemma exists_cutoff_eq:
  "exists_cutoff timeout w
     = js_sub (js_int (clock w)) (js_mul (Finite 1600) (to_number timeout))"
  by (simp only: exists_cutoff_def exists_factor)

lemma clientExists_char:
  "clientExists timeout clientId w \<longleftrightarrow>
     available w \<and> (\<exists>s. map_of (store_zset w) clientId = Some s \<and> s \<noteq> 0
        \<and> js_gt (js_int s) (exists_cutoff timeout w))"
  by (auto simp: clientExists_def command_def zScore_def parseInt_toString Let_def split: option.splits)

lemma map_of_zAdd: "map_of (store_zset (snd (zAdd score member w))) member = Some score"
proof (cases "member \<in> fst ` set (store_zset w)")
  case True
  have "member \<in> fst ` set xs \<Longrightarrow>
        map_of (map (\<lambda>(m, s). if m = member then (m, score) else (m, s)) xs) member = Some score" for xs
    by (induction xs) auto
  with True show ?thesis by (simp add: zAdd_def)
next
  case False
  then have "map_of (store_zset w) member = None" by (simp add: map_of_eq_None_iff)
  with False show ?thesis by (simp add: zAdd_def map_add_def)
qed

lemma zAdd_NX_fresh:
  assumes "member \<notin> fst ` set (store_zset w)"
  shows "fst (zAdd_NX score member w) = 1"
    and "map_of (store_zset (snd (zAdd_NX score member w))) member = Some score"
proof -
  from assms have "map_of (store_zset w) member = None" by (simp add: map_of_eq_None_iff)
  with assms show "map_of (store_zset (snd (zAdd_NX score member w))) member = Some score"
    by (simp add: zAdd_NX_def map_add_def)
  from assms show "fst (zAdd_NX score member w) = 1" by (simp add: zAdd_NX_def)
qed

section \<open>The batch of a destroy\<close>

lemma exec_queue_append:
  "exec_queue (cs @ ds) w =
     (fst (exec_queue cs w) @ fst (exec_queue ds (snd (exec_queue cs w))),
      snd (exec_queue ds (snd (exec_queue cs w))))"
  by (induction cs arbitrary: w) (simp_all add: split_beta Let_def)

lemma sRem_sets:
  "store_sets (snd (sRem k member w)) =
     (store_sets w)(k := removeAll member (store_sets w k))"
  by (auto simp: sRem_def)

lemma sRem_reply: "fst (sRem k member w) = (if member \<in> set (store_sets w k) then 1 else 0)"
  by (simp add: sRem_def)

lemma channel_commands_replies:
  assumes "distinct channels"
  shows "fst (exec_queue (channel_commands clientId channels) w)
           = concat (map (\<lambda>channel. [removal_reply w (Channels_of clientId) channel,
                                       removal_reply w (Clients_of channel) clientId]) channels)"
  using assms
proof (induction channels arbitrary: w)
  case Nil
  then show ?case by (simp add: channel_commands_def)
next
  case (Cons c cs)
  let ?w1 = "snd (sRem (Clients_of c) clientId (snd (sRem (Channels_of clientId) c w)))"
  have sets1: "store_sets ?w1 = (store_sets w)
       (Channels_of clientId := removeAll c (store_sets w (Channels_of clientId)),
        Clients_of c := removeAll clientId (store_sets w (Clients_of c)))"
    by (simp add: sRem_sets)
  have rest: "map (\<lambda>channel. [removal_reply ?w1 (Channels_of clientId) channel,
                                removal_reply ?w1 (Clients_of channel) clientId]) cs
            = map (\<lambda>channel. [removal_reply w (Channels_of clientId) channel,
                                removal_reply w (Clients_of channel) clientId]) cs"
    using Cons.prems by (auto simp: removal_reply_def sets1)
  have ih: "fst (exec_queue (channel_commands clientId cs) ?w1)
           = concat (map (\<lambda>channel. [removal_reply ?w1 (Channels_of clientId) channel,
                                       removal_reply ?w1 (Clients_of channel) clientId]) cs)"
    using Cons.IH [of ?w1] Cons.prems by simp
  have unfold: "channel_commands clientId (c # cs)
       = SREM (Channels_of clientId) c # SREM (Clients_of c) clientId # channel_commands clientId cs"
    by (simp add: channel_commands_def)
  have h1: "Integer_reply (fst (sRem (Channels_of clientId) c w))
              = removal_reply w (Channels_of clientId) c"
    by (simp add: sRem_reply removal_reply_def)
  have h2: "Integer_reply (fst (sRem (Clients_of c) clientId (snd (sRem (Channels_of clientId) c w))))
              = removal_reply w (Clients_of c) clientId"
    by (simp add: sRem_reply sRem_sets removal_reply_def)
  show ?case
    unfolding unfold
    by (simp add: split_beta Let_def ih rest h1 h2)
qed

lemma run_queued_trace: "trace (snd (run_queued c w)) = trace w @ published_by c"
  by (cases c)
     (auto simp: published_by_def zAdd_def sRem_def del_def zRem_def publish_close_def
        lRange_all_def emit_def Let_def split_beta)

lemma exec_queue_trace:
  "trace (snd (exec_queue cs w)) = trace w @ concat (map published_by cs)"
  by (induction cs arbitrary: w) (simp_all add: split_beta Let_def run_queued_trace)

lemma run_queued_connection:
  "available (snd (run_queued c w)) = available w \<and> clock (snd (run_queued c w)) = clock w"
  by (cases c)
     (auto simp: zAdd_def sRem_def del_def zRem_def publish_close_def
        lRange_all_def emit_def Let_def split_beta)

lemma channel_commands_publish_nothing:
  "concat (map published_by (channel_commands clientId channels)) = ([] :: 'd event list)"
  by (induction channels) (simp_all add: channel_commands_def published_by_def)

lemma destroy_commands_split:
  "destroy_commands clientId channels =
     ZADD 0 clientId # channel_commands clientId channels
       @ [DEL (Messages_of clientId), ZREM clientId, PUBLISH_close clientId]"
  by (simp add: destroy_commands_def channel_commands_def)

lemma destroy_trace:
  "trace (snd (exec_queue (destroy_commands clientId channels) w))
     = trace w @ [Close_notification clientId]"
proof -
  have "concat (map published_by (destroy_commands clientId channels))
          = ([Close_notification clientId] :: 'a event list)"
    by (simp add: destroy_commands_split channel_commands_publish_nothing)
       (simp add: published_by_def)
  then show ?thesis by (simp only: exec_queue_trace)
qed

lemma pairs_nth:
  "j < length xs \<Longrightarrow> concat (map (\<lambda>x. [f x, g x]) xs) ! (2 * j) = f (xs ! j)"
proof (induction xs arbitrary: j)
  case Nil
  then show ?case by simp
next
  case (Cons x xs)
  then show ?case by (cases j) simp_all
qed

lemma pairs_length: "length (concat (map (\<lambda>x. [f x, g x]) xs)) = 2 * length xs"
  by (induction xs) simp_all

lemma zAdd_sets: "store_sets (snd (zAdd score member w)) = store_sets w"
  by (simp add: zAdd_def)

lemma destroy_result_at:
  assumes "distinct channels" and "j < length channels"
  shows "result_at (fst (exec_queue (destroy_commands clientId channels) w)) (2 * j + 1)
           = Some (removal_reply w (Channels_of clientId) (channels ! j))"
proof -
  let ?w1 = "snd (zAdd 0 clientId w)"
  let ?pairs = "concat (map (\<lambda>channel. [removal_reply ?w1 (Channels_of clientId) channel,
                                       removal_reply ?w1 (Clients_of channel) clientId]) channels)"
  have fst_eq: "fst (exec_queue (destroy_commands clientId channels) w)
      = Integer_reply (fst (zAdd 0 clientId w)) # ?pairs
          @ fst (exec_queue [DEL (Messages_of clientId), ZREM clientId, PUBLISH_close clientId]
                   (snd (exec_queue (channel_commands clientId channels) ?w1)))"
    unfolding destroy_commands_split
    by (simp add: exec_queue_append split_beta Let_def channel_commands_replies [OF assms(1)])
  have len: "2 * j < length ?pairs" using assms(2) by (simp add: pairs_length)
  have "(?pairs @ zs) ! (2 * j) = removal_reply ?w1 (Channels_of clientId) (channels ! j)" for zs
    using len assms(2) by (simp add: nth_append pairs_nth del: length_concat)
  moreover have "removal_reply ?w1 (Channels_of clientId) (channels ! j)
        = removal_reply w (Channels_of clientId) (channels ! j)"
    by (simp add: removal_reply_def zAdd_sets)
  ultimately show ?thesis
    using len by (simp add: result_at_def fst_eq pairs_length)
qed

lemma notify_unsubscribed_eq:
  "notify_unsubscribed clientId channels i results w =
     w\<lparr>trace := trace w @ map (Unsubscribe clientId)
        (map fst (filter (\<lambda>(channel, j). result_at results (2 * j + 1) = Some (Integer_reply 1))
                   (zip channels [i ..< i + length channels])))\<rparr>"
proof (induction channels arbitrary: i w)
  case Nil
  then show ?case by simp
next
  case (Cons c cs)
  have upt: "[i ..< i + length (c # cs)] = i # [Suc i ..< Suc i + length cs]"
    using upt_conv_Cons [of i "i + length (c # cs)"] by simp
  show ?case
    unfolding upt by (simp add: Cons.IH emit_def)
qed

lemma filter_zip_index:
  assumes "\<forall>j < length xs. P (xs ! j, j) = Q (xs ! j)"
  shows "map fst (filter P (zip xs [0 ..< length xs])) = filter Q xs"
proof -
  have "filter P (zip xs [0 ..< length xs]) = filter (\<lambda>p. Q (fst p)) (zip xs [0 ..< length xs])"
  proof (rule filter_cong [OF refl])
    fix p assume "p \<in> set (zip xs [0 ..< length xs])"
    then obtain j where "j < length xs" "p = (xs ! j, j)"
      by (auto simp: set_zip)
    with assms show "P p = Q (fst p)" by simp
  qed
  moreover have "map fst (filter (\<lambda>p. Q (fst p)) zs) = filter Q (map fst zs)" for zs :: "('a \<times> nat) list"
    by (induction zs) auto
  ultimately show ?thesis by simp
qed

section \<open>Lock values\<close>

lemma js_lt_int: "js_lt (js_int a) (js_int b) \<longleftrightarrow> a < b"
  by (simp add: js_int_def)

section \<open>Creation of a session\<close>

lemma createClient_collision:
  assumes "available w" and "generateId n \<in> fst ` set (store_zset w)"
  shows "createClient generateId n timeout w = createClient generateId (Suc n) timeout w"
  using assms by (subst createClient.simps) (simp add: command_def zAdd_NX_def Let_def)

lemma createClient_fresh:
  assumes "available w" and "generateId n \<notin> fst ` set (store_zset w)"
  shows "createClient generateId n timeout w
           = Some (Some (generateId n), Suc n, created timeout (generateId n) w)"
  using assms by (subst createClient.simps) (simp add: command_def zAdd_NX_def created_def Let_def)

lemma createClient_first_absent:
  assumes "available w"
    and "\<forall>i<k. generateId (n + i) \<in> fst ` set (store_zset w)"
    and "generateId (n + k) \<notin> fst ` set (store_zset w)"
  shows "createClient generateId n timeout w
           = Some (Some (generateId (n + k)), Suc (n + k), created timeout (generateId (n + k)) w)"
  using assms(2,3)
proof (induction k arbitrary: n)
  case 0
  then show ?case using assms(1) createClient_fresh [where w = w and generateId = generateId and n = n] by simp
next
  case (Suc k)
  have here: "generateId n \<in> fst ` set (store_zset w)"
    using Suc.prems(1) by (metis add.right_neutral zero_less_Suc)
  have "\<forall>i<k. generateId (Suc n + i) \<in> fst ` set (store_zset w)"
    using Suc.prems(1) by (metis Suc_less_eq add_Suc_right add_Suc)
  moreover have "generateId (Suc n + k) \<notin> fst ` set (store_zset w)"
    using Suc.prems(2) by simp
  ultimately have "createClient generateId (Suc n) timeout w
      = Some (Some (generateId (Suc n + k)), Suc (Suc n + k), created timeout (generateId (Suc n + k)) w)"
    by (rule Suc.IH)
  then show ?case
    using assms(1) here createClient_collision [where w = w and generateId = generateId and n = n] by simp
qed

lemma createClient_returns_absent:
  assumes "createClient generateId n timeout w = Some (Some clientId, n', w')"
  shows "clientId \<notin> fst ` set (store_zset w)"
proof -
  have "\<forall>c. fst r = Some c \<longrightarrow> c \<notin> fst ` set (store_zset w)"
    if "createClient generateId n timeout w = Some r" for r
    using that
  proof (induction rule: createClient.raw_induct [rotated 1, consumes 1, case_names step])
    case (step createClient' generateId n timeout w r)
    show ?case
    proof (cases "available w")
      case False
      with step(2) show ?thesis by (auto simp: command_def Let_def)
    next
      case True
      show ?thesis
      proof (cases "generateId n \<in> fst ` set (store_zset w)")
        case True
        with \<open>available w\<close> step(2)
        have "createClient' generateId (Suc n) timeout w = Some r"
          by (simp add: command_def zAdd_NX_def Let_def)
        then show ?thesis by (rule step(1))
      next
        case False
        with \<open>available w\<close> step(2) have "fst r = Some (generateId n)"
          by (auto simp: command_def zAdd_NX_def Let_def)
        with False show ?thesis by simp
      qed
    qed
  qed
  with assms show ?thesis by fastforce
qed

lemma zAdd_members:
  "fst ` set (store_zset (snd (zAdd score member w))) = insert member (fst ` set (store_zset w))"
  by (force simp: zAdd_def split: if_splits)

lemma created_member: "clientId \<in> fst ` set (store_zset (created timeout clientId w))"
  by (simp add: created_def ping_def command_def emit_def zAdd_members Let_def split_beta)

section \<open>The fan-out loop\<close>

lemma clientExists_cong:
  assumes "available w' = available w" and "clock w' = clock w" and "store_zset w' = store_zset w"
  shows "clientExists timeout clientId w' = clientExists timeout clientId w"
  using assms by (simp add: clientExists_def command_def zScore_def exists_cutoff_def)

lemma publish_step_frame:
  "available (publish_step j t c w) = available w"
  "clock (publish_step j t c w) = clock w"
  "store_zset (publish_step j t c w) = store_zset w"
  "trace (publish_step j t c w) = trace w @ [Message_notification c]"
  "store_sets (publish_step j t c w) (Clients_of ch) = store_sets w (Clients_of ch)"
  "store_sets (publish_step j t c w) (Channels_of c') = store_sets w (Channels_of c')"
  "c' \<noteq> c \<Longrightarrow> store_lists (publish_step j t c w) (Messages_of c') = store_lists w (Messages_of c')"
  by (simp_all add: publish_step_def rPush_def del_def emit_def Let_def)

lemma publish_step_queue:
  "store_lists (publish_step j t c w) (Messages_of c)
     = (if clientExists t c w then store_lists w (Messages_of c) @ [j] else [])"
proof -
  have "clientExists t c (emit (Message_notification c) (snd (rPush (Messages_of c) j w)))
          = clientExists t c w"
    by (rule clientExists_cong) (simp_all add: rPush_def emit_def)
  then show ?thesis
    by (simp add: publish_step_def rPush_def del_def emit_def Let_def)
qed

lemma publish_loop_step:
  assumes "available w"
  shows "publish_loop j t (c # cs) w = publish_loop j t cs (publish_step j t c w)"
  using assms
  by (simp add: publish_step_def command_def publish_message_def rPush_def emit_def Let_def split_beta)

lemma publish_loop_fold:
  assumes "available w"
  shows "publish_loop j t cs w = Inr (fold (publish_step j t) cs w)"
  using assms
proof (induction cs arbitrary: w)
  case Nil
  then show ?case by simp
next
  case (Cons c cs)
  have "available (publish_step j t c w)" using Cons.prems by (simp add: publish_step_frame)
  then have "publish_loop j t cs (publish_step j t c w)
               = Inr (fold (publish_step j t) cs (publish_step j t c w))"
    by (rule Cons.IH)
  then show ?case using publish_loop_step [OF Cons.prems] by simp
qed

lemma fold_publish_step_frame:
  "available (fold (publish_step j t) cs w) = available w
   \<and> clock (fold (publish_step j t) cs w) = clock w
   \<and> store_zset (fold (publish_step j t) cs w) = store_zset w
   \<and> trace (fold (publish_step j t) cs w) = trace w @ map Message_notification cs
   \<and> store_sets (fold (publish_step j t) cs w) (Clients_of ch) = store_sets w (Clients_of ch)
   \<and> store_sets (fold (publish_step j t) cs w) (Channels_of c') = store_sets w (Channels_of c')"
  by (induction cs arbitrary: w) (simp_all add: publish_step_frame)

lemma fold_publish_step_other:
  "c \<notin> set cs \<Longrightarrow>
     store_lists (fold (publish_step j t) cs w) (Messages_of c) = store_lists w (Messages_of c)"
  by (induction cs arbitrary: w) (auto simp: publish_step_frame)

lemma fold_publish_step_queue:
  assumes "distinct cs" and "c \<in> set cs"
  shows "store_lists (fold (publish_step j t) cs w) (Messages_of c)
           = (if clientExists t c w then store_lists w (Messages_of c) @ [j] else [])"
  using assms
proof (induction cs arbitrary: w)
  case Nil
  then show ?case by simp
next
  case (Cons x xs)
  show ?case
  proof (cases "c = x")
    case True
    then have "c \<notin> set xs" using Cons.prems by simp
    then show ?thesis using True
      by (simp add: fold_publish_step_other publish_step_queue)
  next
    case False
    then have in_xs: "c \<in> set xs" and d: "distinct xs" using Cons.prems by simp_all
    have ex: "clientExists t c (publish_step j t x w) = clientExists t c w"
      by (rule clientExists_cong) (simp_all add: publish_step_frame)
    show ?thesis
      using Cons.IH [OF d in_xs, of "publish_step j t x w"] False
      by (simp add: ex publish_step_frame)
  qed
qed

lemma publish_available:
  assumes "available w" and "channels \<noteq> []"
  shows "publish stringify t message channels w
           = emit (Publish (m_clientId message) (m_channel message) (m_data message))
               (fold (publish_step (stringify message) t) (subscribers channels w) w)"
  using assms
  by (simp add: publish_def sUnion_def subscribers_def publish_loop_fold Let_def comp_def)

lemma publish_no_channel: "publish stringify t message [] w = w"
  by (simp add: publish_def sUnion_def)

lemma publish_queue_after:
  assumes "available w" and "channels \<noteq> []"
  shows "store_lists (publish stringify timeout message channels w) (Messages_of clientId)
           = (if clientId \<in> set (subscribers channels w)
              then (if clientExists timeout clientId w
                    then store_lists w (Messages_of clientId) @ [stringify message]
                    else [])
              else store_lists w (Messages_of clientId))"
  using assms
  by (auto simp: publish_available emit_def fold_publish_step_other fold_publish_step_queue
        subscribers_def)

lemma those_append:
  "those (xs @ ys) = (case those xs of None \<Rightarrow> None
                       | Some as \<Rightarrow> (case those ys of None \<Rightarrow> None | Some bs \<Rightarrow> Some (as @ bs)))"
  by (induction xs) (auto split: option.splits)

lemma emptyQueue_available:
  assumes "available w" and "hasConnection clientId"
    and "store_lists w (Messages_of clientId) \<noteq> []"
    and "those (map parse (store_lists w (Messages_of clientId))) = Some messages"
  shows "emptyQueue parse hasConnection clientId w
           = emit (Deliver clientId messages) (snd (del (Messages_of clientId) w))"
  using assms
  by (simp add: emptyQueue_def exec_def command_def result_at_def lRange_all_def del_def
        Let_def split_beta)


lemma example_live: "clientExists (JSNumber (Finite 45)) ''c1'' fanout_world"
  by (simp add: clientExists_char fanout_world_def exists_cutoff_eq js_gt_def js_int_def
        round_eval)


section \<open>The sweep\<close>

lemma untouched_refl: "untouched c channel w w"
  by (simp add: untouched_def)

lemma untouched_trans:
  "untouched c channel w w1 \<Longrightarrow> untouched c channel w1 w2 \<Longrightarrow> untouched c channel w w2"
  by (simp add: untouched_def)

lemma map_of_rescore:
  "c2 \<noteq> c \<Longrightarrow> map_of (map (\<lambda>(m, s). if m = c then (m, v) else (m, s)) xs) c2 = map_of xs c2"
  by (induction xs) auto

lemma map_of_remove:
  "c2 \<noteq> c \<Longrightarrow> map_of (filter (\<lambda>(m, s). m \<noteq> c) xs) c2 = map_of xs c2"
  by (induction xs) auto

lemma map_of_append_other:
  "c2 \<noteq> c \<Longrightarrow> map_of (xs @ [(c, v)]) c2 = map_of xs c2"
  by (induction xs) auto

lemma run_queued_untouched:
  assumes "about c cmd" and "c2 \<noteq> c"
  shows "untouched c2 channel w (snd (run_queued cmd w))"
proof (cases cmd)
  case (ZADD score member)
  with assms show ?thesis
    by (auto simp: about_def untouched_def zAdd_def map_of_rescore map_of_append_other split_beta
          simp del: map_of_append)
next
  case (SREM k member)
  with assms show ?thesis
    by (cases k) (auto simp: about_def untouched_def sRem_def split_beta)
next
  case (DEL k)
  with assms show ?thesis
    by (auto simp: about_def untouched_def del_def split_beta)
next
  case (ZREM member)
  with assms show ?thesis
    by (auto simp: about_def untouched_def zRem_def map_of_remove split_beta)
next
  case (PUBLISH_close member)
  then show ?thesis
    by (simp add: untouched_def publish_close_def emit_def split_beta)
next
  case (LRANGE_all k)
  then show ?thesis
    by (simp add: untouched_def lRange_all_def split_beta)
qed

lemma exec_queue_untouched:
  assumes "\<forall>cmd \<in> set cmds. about c cmd" and "c2 \<noteq> c"
  shows "untouched c2 channel w (snd (exec_queue cmds w))"
  using assms(1)
proof (induction cmds arbitrary: w)
  case Nil
  then show ?case by (simp add: untouched_refl)
next
  case (Cons cmd cmds)
  have 1: "untouched c2 channel w (snd (run_queued cmd w))"
    using Cons.prems assms(2) by (intro run_queued_untouched) simp_all
  have 2: "untouched c2 channel (snd (run_queued cmd w)) (snd (exec_queue cmds (snd (run_queued cmd w))))"
    using Cons.prems by (intro Cons.IH) simp
  show ?case
    using untouched_trans [OF 1 2] by (simp add: split_beta Let_def)
qed

lemma destroy_commands_about: "\<forall>cmd \<in> set (destroy_commands c channels). about c cmd"
  by (auto simp: destroy_commands_def about_def)

lemma untouched_trace: "untouched c channel w (w'\<lparr>trace := tr\<rparr>) = untouched c channel w w'"
  by (simp add: untouched_def)

lemma destroyClient_untouched:
  assumes "c2 \<noteq> c"
  shows "untouched c2 channel w (destroyClient id c w)"
proof (cases "available w")
  case False
  then show ?thesis
    by (simp add: destroyClient_def command_def emit_def untouched_def)
next
  case True
  have "untouched c2 channel w
          (snd (exec_queue (destroy_commands c (store_sets w (Channels_of c))) w))"
    using destroy_commands_about assms by (rule exec_queue_untouched)
  with True show ?thesis
    by (simp add: destroyClient_def command_def exec_def sMembers_def emit_def
          notify_unsubscribed_eq untouched_trace Let_def split_beta)
qed

lemma fold_destroyClient_untouched:
  "c2 \<notin> set cs \<Longrightarrow> untouched c2 channel w (fold (destroyClient id) cs w)"
proof (induction cs arbitrary: w)
  case Nil
  then show ?case by (simp add: untouched_refl)
next
  case (Cons c cs)
  have 1: "untouched c2 channel w (destroyClient id c w)"
    using Cons.prems by (intro destroyClient_untouched) auto
  have 2: "untouched c2 channel (destroyClient id c w) (fold (destroyClient id) cs (destroyClient id c w))"
    using Cons.prems by (intro Cons.IH) simp
  show ?case using untouched_trans [OF 1 2] by (simp only: fold.simps o_apply)
qed

lemma releaseLock_untouched: "untouched c channel w (releaseLock (Lock lockName) expiry w)"
  by (simp add: releaseLock_def command_def del_def untouched_def)

lemma gc_loop_counts:
  "completed + length cs \<le> n \<Longrightarrow>
     gc_loop n release cs completed w
       = (if cs \<noteq> [] \<and> completed + length cs = n
          then release (fold (destroyClient id) cs w)
          else fold (destroyClient id) cs w)"
proof (induction cs arbitrary: completed w)
  case Nil
  then show ?case by simp
next
  case (Cons c cs)
  show ?case
  proof (cases "completed + 1 = n")
    case True
    then have "cs = []" using Cons.prems by (cases cs) auto
    with True show ?thesis by (simp add: Let_def)
  next
    case False
    then have "Suc completed + length cs \<le> n" using Cons.prems by simp
    from Cons.IH [OF this] False show ?thesis by (auto simp: Let_def)
  qed
qed

lemma sweep_cutoff_eq:
  "sweep_cutoff timeout w
     = js_sub (js_int (clock w)) (js_mul (Finite 2000) (to_number timeout))"
  by (simp only: sweep_cutoff_def sweep_factor)

lemma sweep_cutoff_not_NaN: "n \<noteq> NaN \<Longrightarrow> sweep_cutoff (JSNumber n) w \<noteq> NaN"
  by (simp add: sweep_cutoff_eq js_int_def js_sub_not_NaN js_mul_not_NaN)

lemma zRangeByScore_stale:
  assumes "available w" and "sweep_cutoff timeout w \<noteq> NaN"
  shows "zRangeByScore (Finite 0) (sweep_cutoff timeout w) w = Some (stale_clients timeout w, w)"
  using assms by (simp add: zRangeByScore_def stale_clients_def)

lemma gc_sweep_available:
  assumes "available w" and "sweep_cutoff timeout w \<noteq> NaN"
  shows "gc_sweep timeout release w
           = (if stale_clients timeout w = [] then release w
              else release (fold (destroyClient id) (stale_clients timeout w) w))"
  using assms
  by (simp add: gc_sweep_def zRangeByScore_stale gc_loop_counts Let_def)

lemma gc_sweep_NaN: "gc_sweep (JSNumber NaN) release w = w"
  by (simp add: gc_sweep_def sweep_cutoff_eq zRangeByScore_def js_int_def Let_def)

lemma stale_clients_set:
  assumes "distinct (map fst (store_zset w))"
  shows "c \<in> set (stale_clients timeout w) \<longleftrightarrow>
           (\<exists>s. map_of (store_zset w) c = Some s \<and> 0 \<le> s
              \<and> js_le (js_int s) (sweep_cutoff timeout w))"
  using assms by (auto simp: stale_clients_def image_iff js_le_def js_int_def)

lemma destroyClient_available: "available (destroyClient id c w) = available w"
proof -
  have "available (snd (exec_queue cmds w)) = available w" for cmds
    by (induction cmds arbitrary: w) (simp_all add: split_beta Let_def run_queued_connection)
  then show ?thesis
    by (simp add: destroyClient_def command_def exec_def sMembers_def emit_def
          notify_unsubscribed_eq Let_def split_beta)
qed

lemma fold_destroyClient_available: "available (fold (destroyClient id) cs w) = available w"
  by (induction cs arbitrary: w) (simp_all only: fold.simps o_apply destroyClient_available id_apply)

lemma zRem_zset:
  "store_zset (snd (zRem c w)) = filter (\<lambda>(m, s). m \<noteq> c) (store_zset w)"
proof (cases "c \<in> fst ` set (store_zset w)")
  case True
  then show ?thesis by (simp add: zRem_def)
next
  case False
  then have "\<forall>x \<in> set (store_zset w). (case x of (m, s) \<Rightarrow> m \<noteq> c)"
    by force
  then have "filter (\<lambda>(m, s). m \<noteq> c) (store_zset w) = store_zset w"
    by (simp only: filter_id_conv)
  with False show ?thesis by (simp add: zRem_def)
qed

lemma destroyClient_removes:
  assumes "available w"
  shows "map_of (store_zset (destroyClient id c w)) c = None"
proof -
  let ?cmds = "destroy_commands c (store_sets w (Channels_of c))"
  let ?front = "ZADD 0 c # channel_commands c (store_sets w (Channels_of c)) @ [DEL (Messages_of c)]"
  have split: "?cmds = ?front @ [ZREM c, PUBLISH_close c]"
    by (simp add: destroy_commands_split)
  have "store_zset (snd (exec_queue ?cmds w))
          = filter (\<lambda>(m, s). m \<noteq> c) (store_zset (snd (exec_queue ?front w)))"
    unfolding split exec_queue_append
    by (simp add: split_beta Let_def zRem_zset publish_close_def emit_def)
  then have "map_of (store_zset (snd (exec_queue ?cmds w))) c = None"
    by (auto simp: map_of_eq_None_iff)
  with assms show ?thesis
    by (simp add: destroyClient_def command_def exec_def sMembers_def emit_def
          notify_unsubscribed_eq Let_def split_beta)
qed

lemma fold_destroyClient_removes:
  assumes "available w" and "c \<in> set cs"
  shows "map_of (store_zset (fold (destroyClient id) cs w)) c = None"
  using assms
proof (induction cs arbitrary: w)
  case Nil
  then show ?case by simp
next
  case (Cons x xs)
  let ?w1 = "destroyClient id x w"
  have av: "available ?w1" using Cons.prems(1) by (simp only: destroyClient_available)
  show ?case
  proof (cases "c \<in> set xs")
    case True
    from Cons.IH [OF av True] show ?thesis by (simp only: fold.simps o_apply)
  next
    case False
    then have "c = x" using Cons.prems(2) by simp
    then have "map_of (store_zset ?w1) c = None"
      using destroyClient_removes [OF Cons.prems(1)] by simp
    moreover have "untouched c undefined ?w1 (fold (destroyClient id) xs ?w1)"
      using False by (rule fold_destroyClient_untouched)
    ultimately show ?thesis by (simp only: fold.simps o_apply untouched_def)
  qed
qed

section \<open>Claims about the session store\<close>

text \<open>
  Claim C3, as the code has it. The batch of \<open>destroyClient\<close> queues, for the
  \<open>i\<close>-th channel, the removal from the client's own set of channels at position
  \<open>2 * i + 1\<close> and the removal from the channel's set of clients at position
  \<open>2 * i + 2\<close>; the event is decided by the reply at \<open>2 * i + 1\<close>. So, when the store
  serves both the read and the batch, the events after the batch are the close
  notification, one \<open>Unsubscribe\<close> for exactly the channels read that are still in the
  client's own set of channels when the batch runs, then \<open>Disconnect\<close>, then the
  callback. When the read or the batch is rejected, only the callback is invoked.
\<close>

theorem destroyClient_notifications:
  assumes "distinct (store_sets w (Channels_of clientId))"
  shows "(available w \<and> available (others w) \<longrightarrow>
            trace (destroyClient others clientId w)
              = trace (others w) @ [Close_notification clientId]
                @ map (Unsubscribe clientId)
                    (filter (\<lambda>channel. channel \<in> set (store_sets (others w) (Channels_of clientId)))
                       (store_sets w (Channels_of clientId)))
                @ [Disconnect clientId, Callback])
       \<and> (\<not> available w \<longrightarrow> destroyClient others clientId w = emit Callback w)
       \<and> (available w \<and> \<not> available (others w) \<longrightarrow>
            destroyClient others clientId w = emit Callback (others w))"
proof (intro conjI impI)
  assume "\<not> available w"
  then show "destroyClient others clientId w = emit Callback w"
    by (simp add: destroyClient_def command_def)
next
  assume "available w \<and> \<not> available (others w)"
  then show "destroyClient others clientId w = emit Callback (others w)"
    by (simp add: destroyClient_def command_def exec_def sMembers_def Let_def)
next
  assume av: "available w \<and> available (others w)"
  let ?channels = "store_sets w (Channels_of clientId)"
  let ?w2 = "others w"
  let ?results = "fst (exec_queue (destroy_commands clientId ?channels) ?w2)"
  let ?w3 = "snd (exec_queue (destroy_commands clientId ?channels) ?w2)"
  have run: "destroyClient others clientId w
      = emit Callback (emit (Disconnect clientId)
          (notify_unsubscribed clientId ?channels 0 ?results ?w3))"
    using av by (simp add: destroyClient_def command_def exec_def sMembers_def split_beta Let_def)
  have sel: "map fst (filter (\<lambda>(channel, j). result_at ?results (2 * j + 1) = Some (Integer_reply 1))
                 (zip ?channels [0 ..< length ?channels]))
           = filter (\<lambda>channel. channel \<in> set (store_sets ?w2 (Channels_of clientId))) ?channels"
  proof (rule filter_zip_index, intro allI impI)
    fix j assume j: "j < length ?channels"
    have "result_at ?results (2 * j + 1)
            = Some (removal_reply ?w2 (Channels_of clientId) (?channels ! j))"
      by (rule destroy_result_at [OF assms j])
    then show "(case (?channels ! j, j) of
                  (channel, j) \<Rightarrow> result_at ?results (2 * j + 1) = Some (Integer_reply 1))
               = (?channels ! j \<in> set (store_sets ?w2 (Channels_of clientId)))"
      by (simp add: removal_reply_def)
  qed
  show "trace (destroyClient others clientId w)
      = trace ?w2 @ [Close_notification clientId]
        @ map (Unsubscribe clientId)
            (filter (\<lambda>channel. channel \<in> set (store_sets ?w2 (Channels_of clientId))) ?channels)
        @ [Disconnect clientId, Callback]"
  proof -
    have "notify_unsubscribed clientId ?channels 0 ?results ?w3
        = ?w3\<lparr>trace := trace ?w3 @ map (Unsubscribe clientId)
            (map fst (filter (\<lambda>(channel, j). result_at ?results (2 * j + 1) = Some (Integer_reply 1))
               (zip ?channels [0 ..< length ?channels])))\<rparr>"
      using notify_unsubscribed_eq [of clientId ?channels 0 ?results ?w3] by (simp only: add_0)
    then have "notify_unsubscribed clientId ?channels 0 ?results ?w3
        = ?w3\<lparr>trace := trace ?w3 @ map (Unsubscribe clientId)
            (filter (\<lambda>channel. channel \<in> set (store_sets ?w2 (Channels_of clientId))) ?channels)\<rparr>"
      by (simp only: sel)
    then show ?thesis
      unfolding run by (simp add: emit_def destroy_trace)
  qed
qed

text \<open>The theorem of C3 on a client subscribed to one channel, with and without the store.\<close>

theorem destroyClient_notifications_witness:
  "distinct (store_sets half_subscribed_world (Channels_of ''c''))
   \<and> available half_subscribed_world
   \<and> trace (destroyClient id ''c'' half_subscribed_world)
       = [Close_notification ''c'', Unsubscribe ''c'' ''/a'', Disconnect ''c'', Callback]
   \<and> trace (destroyClient id ''c'' (half_subscribed_world\<lparr>available := False\<rparr>)) = [Callback]"
  using destroyClient_notifications [of half_subscribed_world "''c''" id]
        destroyClient_notifications [of "half_subscribed_world\<lparr>available := False\<rparr>" "''c''" id]
  by (simp add: half_subscribed_world_def emit_def)

text \<open>
  Claim C3 as stated fails twice: the client is not in the set of clients of \<^verbatim>\<open>/a\<close>
  and the batch leaves that set as it was, yet \<open>Unsubscribe\<close> is emitted for \<^verbatim>\<open>/a\<close>;
  and when the store rejects the read, no \<open>Disconnect\<close> is emitted.
\<close>

theorem destroyClient_reverse_index_counterexample:
  "''c'' \<notin> set (store_sets half_subscribed_world (Clients_of ''/a''))
   \<and> store_sets (destroyClient id ''c'' half_subscribed_world) (Clients_of ''/a'')
       = store_sets half_subscribed_world (Clients_of ''/a'')
   \<and> Unsubscribe ''c'' ''/a'' \<in> set (trace (destroyClient id ''c'' half_subscribed_world))
   \<and> Disconnect ''c'' \<notin> set (trace (destroyClient id ''c'' (half_subscribed_world\<lparr>available := False\<rparr>)))"
  by (simp add: half_subscribed_world_def destroyClient_def command_def exec_def sMembers_def
        destroy_commands_def zAdd_def sRem_def del_def zRem_def publish_close_def emit_def
        result_at_def key_exists_def Let_def)

text \<open>
  Claim C4, as the code has it: the existence check gives true exactly when the read of
  the score succeeds, the client is in the session set with a score other than 0, and the
  score is above the cutoff; in particular it gives false when the store rejects the read.
  The cutoff is \<^verbatim>\<open>now - 1000 * 1.6 * timeout\<close> as the code computes it in doubles:
  \<^verbatim>\<open>1000 * 1.6\<close> is 1600, the product with the timeout is rounded, and so is the
  difference.
\<close>

theorem clientExists_iff_nonzero_recent:
  "(clientExists timeout clientId w \<longleftrightarrow>
      available w \<and> (\<exists>s. map_of (store_zset w) clientId = Some s \<and> s \<noteq> 0
        \<and> js_gt (js_int s) (exists_cutoff timeout w)))
   \<and> exists_cutoff timeout w
       = js_sub (js_int (clock w)) (js_mul (Finite 1600) (to_number timeout))"
  using exists_cutoff_eq [of timeout w] by (simp add: clientExists_char [of _ clientId w])

text \<open>
  The theorem of C4 on a live session (timeout 45 s, last seen 10 s ago), on the same
  world when the store rejects the read, and on a session seen at this very millisecond
  with a timeout of \<open>2\<^sup>-\<^sup>3\<^sup>0\<close> s: the cutoff rounds to the clock, and the score is not
  above it.
\<close>

theorem clientExists_iff_nonzero_recent_witness:
  "clientExists (JSNumber (Finite 45)) ''c'' (half_subscribed_world\<lparr>clock := 1700000010000\<rparr>)
   \<and> \<not> clientExists (JSNumber (Finite 45)) ''c''
         (half_subscribed_world\<lparr>clock := 1700000010000, available := False\<rparr>)
   \<and> map_of (store_zset half_subscribed_world) ''c'' = Some (clock half_subscribed_world)
   \<and> exists_cutoff (JSNumber (Finite (1 / 2 ^ 30))) half_subscribed_world
       = js_int (clock half_subscribed_world)
   \<and> \<not> clientExists (JSNumber (Finite (1 / 2 ^ 30))) ''c'' half_subscribed_world"
proof -
  note p = clientExists_iff_nonzero_recent [where clientId = "''c''"]
  have live: "clientExists (JSNumber (Finite 45)) ''c''
                (half_subscribed_world\<lparr>clock := 1700000010000\<rparr>)"
    using p [where timeout = "JSNumber (Finite 45)"
               and w = "half_subscribed_world\<lparr>clock := 1700000010000\<rparr>"]
    by (simp add: half_subscribed_world_def js_gt_def js_int_def round_eval)
  have down: "\<not> clientExists (JSNumber (Finite 45)) ''c''
                (half_subscribed_world\<lparr>clock := 1700000010000, available := False\<rparr>)"
    using p [where timeout = "JSNumber (Finite 45)"
               and w = "half_subscribed_world\<lparr>clock := 1700000010000, available := False\<rparr>"]
    by (simp add: half_subscribed_world_def)
  have cut: "exists_cutoff (JSNumber (Finite (1 / 2 ^ 30))) half_subscribed_world
               = js_int (clock half_subscribed_world)"
    using p [where timeout = "JSNumber (Finite (1 / 2 ^ 30))" and w = half_subscribed_world,
             THEN conjunct2]
    by (simp add: half_subscribed_world_def js_int_def round_eval)
  have now: "\<not> clientExists (JSNumber (Finite (1 / 2 ^ 30))) ''c'' half_subscribed_world"
    using p [where timeout = "JSNumber (Finite (1 / 2 ^ 30))" and w = half_subscribed_world,
             THEN conjunct1] cut
    by (simp add: half_subscribed_world_def js_gt_def js_int_def)
  show ?thesis
    using live down cut now by (simp add: half_subscribed_world_def)
qed

text \<open>
  Claim C4 as stated fails on a session whose score is 0 when the cutoff is negative
  (here a timeout of 2000000000 s, for which the cutoff is exact): the client is in the
  session set, its score is above the cutoff, and the check gives false.
\<close>

theorem clientExists_score_zero_counterexample:
  "map_of (store_zset touched_world) ''c'' = Some 0
   \<and> real_of_int (clock touched_world) - 1000 * 1.6 * 2000000000 < real_of_int 0
   \<and> exists_cutoff (JSNumber (Finite 2000000000)) touched_world = Finite (- 1500000000000)
   \<and> \<not> clientExists (JSNumber (Finite 2000000000)) ''c'' touched_world"
proof -
  have "exists_cutoff (JSNumber (Finite 2000000000)) touched_world = Finite (- 1500000000000)"
    by (simp add: exists_cutoff_eq touched_world_def js_int_def round_eval)
  moreover have "\<not> clientExists (JSNumber (Finite 2000000000)) ''c'' touched_world"
    by (simp add: clientExists_char touched_world_def)
  ultimately show ?thesis by (simp add: touched_world_def)
qed

text \<open>
  Claim C10: a client whose score in the session set is 0 is reported as not existing,
  whatever the timeout, the clock and the state of the connection, as a client that is
  not in the set is. Score 0 is what the create-if-absent insert of \<open>createClient\<close>
  leaves for a new member, and what the first command of the batch of \<open>destroyClient\<close>
  writes.
\<close>

theorem score_zero_reported_absent:
  "(map_of (store_zset w) clientId = Some 0 \<longrightarrow> \<not> clientExists timeout clientId w)
   \<and> (map_of (store_zset w) clientId = None \<longrightarrow> \<not> clientExists timeout clientId w)
   \<and> (clientId \<notin> fst ` set (store_zset w) \<longrightarrow>
        fst (zAdd_NX 0 clientId w) = 1
        \<and> map_of (store_zset (snd (zAdd_NX 0 clientId w))) clientId = Some 0)
   \<and> map_of (store_zset (snd (zAdd 0 clientId w))) clientId = Some 0
   \<and> hd (destroy_commands clientId channels) = ZADD 0 clientId"
  by (simp add: clientExists_char map_of_zAdd zAdd_NX_fresh destroy_commands_def)

text \<open>The theorem of C10 on a session of score 0, with a timeout of 45 s.\<close>

theorem score_zero_reported_absent_witness:
  "map_of (store_zset touched_world) ''c'' = Some 0
   \<and> \<not> clientExists (JSNumber (Finite 45)) ''c'' touched_world
   \<and> ''d'' \<notin> fst ` set (store_zset touched_world)
   \<and> map_of (store_zset (snd (zAdd_NX 0 ''d'' touched_world))) ''d'' = Some 0"
  using score_zero_reported_absent [of touched_world "''c''" "JSNumber (Finite 45)"]
        score_zero_reported_absent [of touched_world "''d''"]
  by (simp add: touched_world_def)

section \<open>Claims about the subscription index\<close>

text \<open>
  Claim C7: from a state where the channel is not in the client's set of channels, two
  calls of \<open>subscribe\<close> emit \<open>Subscribe\<close> once, and each call invokes its callback; a
  second call emits nothing but its callback, whatever the state before the first; and
  \<open>unsubscribe\<close> on a pair that is not subscribed emits nothing but its callback.
\<close>

theorem subscribe_twice_notifies_once:
  assumes "available w"
  shows "(channel \<notin> set (store_sets w (Channels_of clientId)) \<longrightarrow>
            trace (subscribe clientId channel (subscribe clientId channel w))
              = trace w @ [Subscribe clientId channel, Callback, Callback])
       \<and> trace (subscribe clientId channel (subscribe clientId channel w))
              = trace (subscribe clientId channel w) @ [Callback]
       \<and> (channel \<notin> set (store_sets w (Channels_of clientId)) \<longrightarrow>
            trace (unsubscribe clientId channel w) = trace w @ [Callback])"
  using assms
  by (simp add: subscribe_def unsubscribe_def command_def sAdd_def sRem_def emit_def Let_def)

text \<open>The theorem of C7 on an empty store.\<close>

theorem subscribe_twice_notifies_once_witness:
  "available empty_world
   \<and> ''/a'' \<notin> set (store_sets empty_world (Channels_of ''c''))
   \<and> trace (subscribe ''c'' ''/a'' (subscribe ''c'' ''/a'' empty_world))
       = [Subscribe ''c'' ''/a'', Callback, Callback]
   \<and> trace (unsubscribe ''c'' ''/a'' empty_world) = [Callback]"
  using subscribe_twice_notifies_once [of empty_world "''/a''" "''c''"]
  by (simp add: empty_world_def)

section \<open>Claims about the timeout, the lock and creation\<close>

text \<open>
  Claim C5, as the code has it. \<open>ping\<close> and \<open>gc\<close> test the timeout with
  \<^verbatim>\<open>typeof timeout !== 'number'\<close>: for a timeout of another type (\<^verbatim>\<open>undefined\<close>,
  \<^verbatim>\<open>null\<close>, a boolean) \<open>ping\<close> leaves the world as it is and \<open>gc\<close> returns
  without issuing a command. \<^verbatim>\<open>NaN\<close> has the type number, and for every timeout of
  that type \<open>ping\<close> writes the current time as the score when the store serves it.
\<close>

theorem non_number_timeout_skipped:
  "(typeof timeout \<noteq> ''number'' \<longrightarrow>
      ping timeout clientId w = w \<and> gc timeout others1 others2 w = w)
   \<and> typeof (JSNumber NaN) = ''number''
   \<and> (typeof timeout = ''number'' \<and> available w \<longrightarrow>
        map_of (store_zset (ping timeout clientId w)) clientId = Some (clock w))"
  using map_of_zAdd [of "clock w" clientId w]
  by (simp add: ping_def gc_def command_def Let_def split_beta)

text \<open>The theorem of C5 for the timeout \<^verbatim>\<open>undefined\<close> and for a timeout of 45 s.\<close>

theorem non_number_timeout_skipped_witness:
  "typeof JSUndefined \<noteq> ''number''
   \<and> ping JSUndefined ''c'' touched_world = touched_world
   \<and> gc JSUndefined id id touched_world = touched_world
   \<and> typeof (JSNumber (Finite 45)) = ''number'' \<and> available touched_world
   \<and> map_of (store_zset (ping (JSNumber (Finite 45)) ''c'' touched_world)) ''c''
       = Some 1700000000000"
  using non_number_timeout_skipped [of JSUndefined "''c''" touched_world id id]
        non_number_timeout_skipped [of "JSNumber (Finite 45)" "''c''" touched_world id id]
  by (simp add: touched_world_def)

text \<open>
  Claim C5 as stated fails for \<^verbatim>\<open>NaN\<close>: \<open>ping\<close> with the timeout \<^verbatim>\<open>NaN\<close>
  changes the score of the client from 0 to the current time.
\<close>

theorem ping_NaN_counterexample:
  "map_of (store_zset touched_world) ''c'' = Some 0
   \<and> map_of (store_zset (ping (JSNumber NaN) ''c'' touched_world)) ''c'' = Some 1700000000000"
  by (simp add: touched_world_def ping_def command_def zAdd_def)

text \<open>
  Claim C1: the three roles of an attempt on the lock, on a world whose store serves the
  first command. The expiry is \<^verbatim>\<open>now + LOCK_TIMEOUT * 1000 + 1\<close> with the clock read at
  the start of the attempt. (1) No record: the record is created with the expiry and the
  callback runs with the release closure. (2) A record at the start, none at the read:
  the attempt ends with nothing done. (3) The record read is a timestamp after the clock
  of the start: the same. (4) The record read is a timestamp not after that clock: the
  record is set to the expiry whatever it holds by then, and the callback runs exactly
  when the value replaced is the value read. (5) In particular an attempt on a record
  that holds a timestamp after its clock, as the record of a successful attempt does until
  its expiry, changes nothing and runs no callback. Release deletes the record when the
  clock at release is before the expiry and the store serves the command, and does
  nothing when the expiry has passed.
\<close>

theorem lock_protocol:
  assumes "available w"
  shows "(store_strings w (Lock lockName) = None \<longrightarrow>
            withLock lockName callback others1 others2 w
              = callback (releaseLock (Lock lockName) (clock w + LOCK_TIMEOUT * 1000 + 1))
                  (w\<lparr>store_strings := (store_strings w)(Lock lockName \<mapsto> toString (clock w + LOCK_TIMEOUT * 1000 + 1))\<rparr>))
       \<and> (store_strings w (Lock lockName) \<noteq> None \<and> available (others1 w)
            \<and> store_strings (others1 w) (Lock lockName) = None \<longrightarrow>
            withLock lockName callback others1 others2 w = others1 w)
       \<and> (store_strings w (Lock lockName) \<noteq> None \<and> available (others1 w)
            \<and> store_strings (others1 w) (Lock lockName) = Some (toString v) \<and> clock w < v \<longrightarrow>
            withLock lockName callback others1 others2 w = others1 w)
       \<and> (store_strings w (Lock lockName) \<noteq> None \<and> available (others1 w)
            \<and> store_strings (others1 w) (Lock lockName) = Some (toString v) \<and> v \<le> clock w
            \<and> available (others2 (others1 w)) \<longrightarrow>
            withLock lockName callback others1 others2 w
              = (let w4 = others2 (others1 w);
                     w5 = w4\<lparr>store_strings := (store_strings w4)(Lock lockName \<mapsto> toString (clock w + LOCK_TIMEOUT * 1000 + 1))\<rparr>
                 in if store_strings w4 (Lock lockName) = Some (toString v)
                    then callback (releaseLock (Lock lockName) (clock w + LOCK_TIMEOUT * 1000 + 1)) w5
                    else w5))
       \<and> (store_strings w (Lock lockName) = Some (toString v) \<and> clock w < v \<longrightarrow>
            withLock lockName callback id others2 w = w)
       \<and> (clock w' < expiry \<and> available w' \<longrightarrow>
            store_strings (releaseLock (Lock lockName) expiry w') (Lock lockName) = None)
       \<and> (\<not> clock w' < expiry \<longrightarrow> releaseLock (Lock lockName) expiry w' = w')
       \<and> LOCK_TIMEOUT = 120"
  using assms LOCK_TIMEOUT_def
  by (auto simp: withLock_def releaseLock_def command_def setNX_def get_def set_GET_def del_def
        Let_def parseInt_toString toString_nonempty js_lt_int)

text \<open>
  The theorem of C1 on a free lock, on a lock held for another minute, on an expired
  lock, and on an expired lock that a rival replaces between the read and the set.
\<close>

theorem lock_protocol_witness:
  "withLock ''gc'' (\<lambda>release. emit Callback) id id empty_world
     = emit Callback (empty_world\<lparr>store_strings := (store_strings empty_world)(Lock ''gc'' \<mapsto> ''1700000120001'')\<rparr>)
   \<and> withLock ''gc'' (\<lambda>release. emit Callback) id id held_world = held_world
   \<and> trace (withLock ''gc'' (\<lambda>release. emit Callback) id id expired_world) = [Callback]
   \<and> store_strings (withLock ''gc'' (\<lambda>release. emit Callback) id id expired_world) (Lock ''gc'')
       = Some ''1700000320001''
   \<and> trace (withLock ''gc'' (\<lambda>release. emit Callback) id rival_steals expired_world) = []
   \<and> store_strings (releaseLock (Lock ''gc'') 1700000120001 held_world) (Lock ''gc'') = None"
proof -
  have t1: "toString 1700000120001 = ''1700000120001''"
    by (simp add: toString_def digits.simps digit_char_def)
  have t2: "toString 1700000320001 = ''1700000320001''"
    by (simp add: toString_def digits.simps digit_char_def)
  have t3: "toString 1700000320000 = ''1700000320000''"
    by (simp add: toString_def digits.simps digit_char_def)
  note p = lock_protocol [where lockName = "''gc''" and callback = "\<lambda>release. emit Callback"
                            and w' = held_world and expiry = 1700000120001]
  have a: "withLock ''gc'' (\<lambda>release. emit Callback) id id empty_world
     = emit Callback (empty_world\<lparr>store_strings := (store_strings empty_world)(Lock ''gc'' \<mapsto> ''1700000120001'')\<rparr>)"
    using p [where w = empty_world and ?others1.0 = id and ?others2.0 = id and v = 0]
    by (simp add: empty_world_def t1 LOCK_TIMEOUT_def)
  have b: "withLock ''gc'' (\<lambda>release. emit Callback) id id held_world = held_world"
    using p [where w = held_world and ?others1.0 = id and ?others2.0 = id and v = 1700000120001]
    by (simp add: held_world_def t1)
  have c: "withLock ''gc'' (\<lambda>release. emit Callback) id id expired_world
      = emit Callback (expired_world\<lparr>store_strings := (store_strings expired_world)(Lock ''gc'' \<mapsto> ''1700000320001'')\<rparr>)"
    using p [where w = expired_world and ?others1.0 = id and ?others2.0 = id and v = 1700000120001]
    by (simp add: held_world_def expired_world_def t1 t2 LOCK_TIMEOUT_def)
  have d: "withLock ''gc'' (\<lambda>release. emit Callback) id rival_steals expired_world
      = expired_world\<lparr>store_strings := (store_strings expired_world)(Lock ''gc'' \<mapsto> ''1700000320001'')\<rparr>"
    using p [where w = expired_world and ?others1.0 = id and ?others2.0 = rival_steals and v = 1700000120001]
    by (simp add: held_world_def expired_world_def rival_steals_def t1 t2 LOCK_TIMEOUT_def)
  have e: "store_strings (releaseLock (Lock ''gc'') 1700000120001 held_world) (Lock ''gc'') = None"
    using p [where w = held_world and ?others1.0 = id and ?others2.0 = id and v = 1700000120001]
    by (simp add: held_world_def)
  show ?thesis
    unfolding a b c d e by (simp add: emit_def expired_world_def held_world_def)
qed

text \<open>
  Claim C8: when the store serves commands and the generator returns \<open>k\<close> identifiers
  that are in the session set before one that is not, \<open>createClient\<close> returns the first
  absent one, after \<open>k + 1\<close> calls of the generator, and that identifier is in the
  session set afterwards. An identifier that is returned was never in the set before,
  and the create-if-absent insert leaves the set as it is on a collision.
\<close>

theorem createClient_retries_until_absent:
  "(available w \<and> (\<forall>i<k. generateId (n + i) \<in> fst ` set (store_zset w))
      \<and> generateId (n + k) \<notin> fst ` set (store_zset w) \<longrightarrow>
      createClient generateId n timeout w
        = Some (Some (generateId (n + k)), Suc (n + k), created timeout (generateId (n + k)) w)
      \<and> generateId (n + k) \<in> fst ` set (store_zset (created timeout (generateId (n + k)) w)))
   \<and> (createClient generateId n timeout w = Some (Some clientId, n', w') \<longrightarrow>
        clientId \<notin> fst ` set (store_zset w))
   \<and> (clientId \<in> fst ` set (store_zset w) \<longrightarrow> zAdd_NX 0 clientId w = (0, w))"
proof (intro conjI impI)
  assume h: "available w \<and> (\<forall>i<k. generateId (n + i) \<in> fst ` set (store_zset w))
      \<and> generateId (n + k) \<notin> fst ` set (store_zset w)"
  then show "createClient generateId n timeout w
        = Some (Some (generateId (n + k)), Suc (n + k), created timeout (generateId (n + k)) w)"
    by (intro createClient_first_absent) blast+
  show "generateId (n + k) \<in> fst ` set (store_zset (created timeout (generateId (n + k)) w))"
    by (rule created_member)
next
  assume "createClient generateId n timeout w = Some (Some clientId, n', w')"
  then show "clientId \<notin> fst ` set (store_zset w)"
    by (rule createClient_returns_absent)
next
  assume "clientId \<in> fst ` set (store_zset w)"
  then show "zAdd_NX 0 clientId w = (0, w)"
    by (simp add: zAdd_NX_def)
qed

text \<open>
  The theorem of C8 on a generator that returns \<^verbatim>\<open>dup\<close> twice and then \<^verbatim>\<open>u2\<close>, while
  \<^verbatim>\<open>dup\<close> is in the session set.
\<close>

theorem createClient_retries_until_absent_witness:
  "available dup_world
   \<and> ''dup'' \<in> fst ` set (store_zset dup_world)
   \<and> dup_generator 0 = ''dup'' \<and> dup_generator 1 = ''dup''
   \<and> createClient dup_generator 0 (JSNumber (Finite 45)) dup_world
       = Some (Some ''u2'', 3, created (JSNumber (Finite 45)) ''u2'' dup_world)
   \<and> ''u2'' \<noteq> ''dup''"
proof -
  have h: "\<forall>i<2. dup_generator (0 + i) \<in> fst ` set (store_zset dup_world)"
    by (simp add: dup_generator_def dup_world_def)
  have "createClient dup_generator 0 (JSNumber (Finite 45)) dup_world
          = Some (Some (dup_generator (0 + 2)), Suc (0 + 2),
                  created (JSNumber (Finite 45)) (dup_generator (0 + 2)) dup_world)"
    using createClient_retries_until_absent
            [where w = dup_world and generateId = dup_generator and n = 0 and k = 2
               and timeout = "JSNumber (Finite 45)", THEN conjunct1] h
    by (simp add: dup_generator_def dup_world_def)
  then show ?thesis by (simp add: dup_generator_def dup_world_def)
qed

section \<open>Claims about the fan-out\<close>



text \<open>
  Claim C9: let \<open>stringify\<close> and \<open>parse\<close> be the serialisation and its inverse on the
  message (\<open>parse (stringify message) = Some message\<close>), and let the messages already in
  the queue be readable. For a live client subscribed to one of the channels, on a process
  that holds its connection, \<open>publish\<close> followed by \<open>emptyQueue\<close> delivers the earlier
  messages followed by the message itself, in one call, and leaves the queue empty.
\<close>

theorem publish_drain_round_trip:
  assumes "available w"
    and "channel \<in> set channels"
    and "clientId \<in> set (store_sets w (Clients_of channel))"
    and "clientExists timeout clientId w"
    and "hasConnection clientId"
    and "parse (stringify message) = Some message"
    and "those (map parse (store_lists w (Messages_of clientId))) = Some earlier"
  shows "trace (emptyQueue parse hasConnection clientId (publish stringify timeout message channels w))
           = trace (publish stringify timeout message channels w)
             @ [Deliver clientId (earlier @ [message])]
       \<and> store_lists (emptyQueue parse hasConnection clientId
            (publish stringify timeout message channels w)) (Messages_of clientId) = []"
proof -
  let ?w1 = "publish stringify timeout message channels w"
  have some: "channels \<noteq> []" using assms(2) by auto
  have member: "clientId \<in> set (subscribers channels w)"
    using assms(2,3) by (auto simp: subscribers_def)
  have queue: "store_lists ?w1 (Messages_of clientId)
                 = store_lists w (Messages_of clientId) @ [stringify message]"
    using publish_queue_after [OF assms(1) some, where stringify = stringify
            and timeout = timeout and message = message and clientId = clientId]
          member assms(4) by simp
  have av: "available ?w1"
    using assms(1) some by (simp add: publish_available emit_def fold_publish_step_frame)
  have parsed: "those (map parse (store_lists ?w1 (Messages_of clientId))) = Some (earlier @ [message])"
    using assms(6,7) by (simp add: queue those_append)
  have "emptyQueue parse hasConnection clientId ?w1
          = emit (Deliver clientId (earlier @ [message])) (snd (del (Messages_of clientId) ?w1))"
    using av assms(5) parsed by (intro emptyQueue_available) (simp_all add: queue)
  then show ?thesis by (simp add: emit_def del_def)
qed

text \<open>The theorem of C9 on the example message and an empty queue.\<close>

theorem publish_drain_round_trip_witness:
  "available fanout_world
   \<and> ''c1'' \<in> set (store_sets fanout_world (Clients_of ''/a''))
   \<and> clientExists (JSNumber (Finite 45)) ''c1'' fanout_world
   \<and> example_parse (example_stringify example_message) = Some example_message
   \<and> trace (emptyQueue example_parse (\<lambda>c. True) ''c1''
        (publish example_stringify (JSNumber (Finite 45)) example_message [''/a''] fanout_world))
       = [Message_notification ''c1'', Publish (Some ''p'') ''/a'' ''hello'',
          Deliver ''c1'' [example_message]]"
proof -
  have av: "available fanout_world" by (simp add: fanout_world_def)
  have m: "''c1'' \<in> set (store_sets fanout_world (Clients_of ''/a''))" by (simp add: fanout_world_def)
  have rt: "example_parse (example_stringify example_message) = Some example_message"
    by (simp add: example_parse_def example_stringify_def)
  have e: "those (map example_parse (store_lists fanout_world (Messages_of ''c1''))) = Some []"
    by (simp add: fanout_world_def)
  have ch: "''/a'' \<in> set [''/a'']" by simp
  have s1: "subscribers [''/a''] fanout_world = [''c1'']"
    by (simp add: subscribers_def fanout_world_def)
  have tr: "trace fanout_world = []" by (simp add: fanout_world_def)
  have pt: "trace (publish example_stringify (JSNumber (Finite 45)) example_message [''/a''] fanout_world)
      = [Message_notification ''c1'', Publish (Some ''p'') ''/a'' ''hello'']"
    by (simp add: publish_available av emit_def publish_step_frame s1 tr example_message_def)
  show ?thesis
    using publish_drain_round_trip [OF av ch m example_live, where hasConnection = "\<lambda>c. True"
            and parse = example_parse and stringify = example_stringify, OF _ rt e]
    by (simp add: av m example_live rt pt)
qed

section \<open>Claims about the sweep\<close>

text \<open>
  Claim C2, as the code has it, for a timeout that is a number other than \<^verbatim>\<open>NaN\<close>, on
  a world whose store serves commands and holds each session once. \<open>gc\<close> runs the sweep
  only as the callback of the lock. The cutoff is \<^verbatim>\<open>now - 1000 * 2 * timeout\<close> as the
  code computes it in doubles: the product with 2000 is rounded, and so is the
  difference. The sweep selects exactly the sessions with a score from 0 up to and
  including the cutoff. With none, it releases at once. Otherwise it destroys every
  selected client and releases after the last destroy: the loop with the counter releases
  when the counter reaches the number of candidates, and has not released while fewer
  destroys have completed. A selected client is no longer in the session set afterwards;
  a client whose score is above the cutoff is untouched.
\<close>

theorem gc_sweep_destroys_stale_then_releases:
  assumes "available w" and "distinct (map fst (store_zset w))" and "n \<noteq> NaN"
  shows "sweep_cutoff (JSNumber n) w = js_sub (js_int (clock w)) (js_mul (Finite 2000) n)
       \<and> (clientId \<in> set (stale_clients (JSNumber n) w) \<longleftrightarrow>
            (\<exists>s. map_of (store_zset w) clientId = Some s \<and> 0 \<le> s
               \<and> js_le (js_int s) (sweep_cutoff (JSNumber n) w)))
       \<and> (stale_clients (JSNumber n) w = [] \<longrightarrow> gc_sweep (JSNumber n) release w = release w)
       \<and> (stale_clients (JSNumber n) w \<noteq> [] \<longrightarrow>
            gc_sweep (JSNumber n) release w
              = release (fold (destroyClient id) (stale_clients (JSNumber n) w) w))
       \<and> (length cs < k \<longrightarrow> gc_loop k release cs 0 w = fold (destroyClient id) cs w)
       \<and> (cs \<noteq> [] \<longrightarrow> gc_loop (length cs) release cs 0 w = release (fold (destroyClient id) cs w))
       \<and> (clientId \<in> set (stale_clients (JSNumber n) w) \<longrightarrow>
            map_of (store_zset (gc_sweep (JSNumber n) (releaseLock (Lock lockName) expiry) w))
              clientId = None)
       \<and> (map_of (store_zset w) clientId = Some s
            \<and> js_lt (sweep_cutoff (JSNumber n) w) (js_int s) \<longrightarrow>
            untouched clientId channel w
              (gc_sweep (JSNumber n) (releaseLock (Lock lockName) expiry) w))
       \<and> gc (JSNumber n) others1 others2 w
           = withLock ''gc'' (gc_sweep (JSNumber n)) others1 others2 w"
proof (intro conjI impI)
  note cut = sweep_cutoff_not_NaN [OF assms(3), of w]
  note sweep = gc_sweep_available [OF assms(1) cut]
  show "sweep_cutoff (JSNumber n) w = js_sub (js_int (clock w)) (js_mul (Finite 2000) n)"
    by (simp add: sweep_cutoff_eq)
  show "clientId \<in> set (stale_clients (JSNumber n) w) \<longleftrightarrow>
            (\<exists>s. map_of (store_zset w) clientId = Some s \<and> 0 \<le> s
               \<and> js_le (js_int s) (sweep_cutoff (JSNumber n) w))"
    by (rule stale_clients_set [OF assms(2)])
  show "gc_sweep (JSNumber n) release w = release w" if "stale_clients (JSNumber n) w = []"
    using that by (simp add: sweep)
  show "gc_sweep (JSNumber n) release w
              = release (fold (destroyClient id) (stale_clients (JSNumber n) w) w)"
    if "stale_clients (JSNumber n) w \<noteq> []"
    using that by (simp add: sweep)
  show "gc_loop k release cs 0 w = fold (destroyClient id) cs w" if "length cs < k"
    using that gc_loop_counts [of 0 cs k release w] by simp
  show "gc_loop (length cs) release cs 0 w = release (fold (destroyClient id) cs w)" if "cs \<noteq> []"
    using that gc_loop_counts [of 0 cs "length cs" release w] by simp
  show "map_of (store_zset (gc_sweep (JSNumber n) (releaseLock (Lock lockName) expiry) w))
              clientId = None"
    if stale: "clientId \<in> set (stale_clients (JSNumber n) w)"
  proof -
    let ?w1 = "fold (destroyClient id) (stale_clients (JSNumber n) w) w"
    have "map_of (store_zset ?w1) clientId = None"
      using assms(1) stale by (rule fold_destroyClient_removes)
    moreover have "untouched clientId undefined ?w1 (releaseLock (Lock lockName) expiry ?w1)"
      by (rule releaseLock_untouched)
    moreover have "gc_sweep (JSNumber n) (releaseLock (Lock lockName) expiry) w
                     = releaseLock (Lock lockName) expiry ?w1"
      using stale by (auto simp: sweep)
    ultimately show ?thesis by (simp add: untouched_def)
  qed
  show "untouched clientId channel w
          (gc_sweep (JSNumber n) (releaseLock (Lock lockName) expiry) w)"
    if recent: "map_of (store_zset w) clientId = Some s
            \<and> js_lt (sweep_cutoff (JSNumber n) w) (js_int s)"
  proof -
    have fresh: "clientId \<notin> set (stale_clients (JSNumber n) w)"
      using recent by (auto simp: stale_clients_set [OF assms(2)] js_le_def)
    let ?w1 = "fold (destroyClient id) (stale_clients (JSNumber n) w) w"
    have 1: "untouched clientId channel w ?w1"
      using fresh by (rule fold_destroyClient_untouched)
    have 2: "untouched clientId channel ?w1 (releaseLock (Lock lockName) expiry ?w1)"
      by (rule releaseLock_untouched)
    have 3: "untouched clientId channel w (releaseLock (Lock lockName) expiry w)"
      by (rule releaseLock_untouched)
    show ?thesis
      using untouched_trans [OF 1 2] 3 by (simp add: sweep)
  qed
  show "gc (JSNumber n) others1 others2 w
           = withLock ''gc'' (gc_sweep (JSNumber n)) others1 others2 w"
    by (simp add: gc_def)
qed

text \<open>
  The theorem of C2 on a store with one stale and one recent session and a timeout of
  5 s, and on a session of score \<^verbatim>\<open>now - 2200\<close> with the timeout 1.1 s, where the
  product rounds to 2200 and the session is selected.
\<close>

theorem gc_sweep_destroys_stale_then_releases_witness:
  "available sweep_world
   \<and> distinct (map fst (store_zset sweep_world))
   \<and> sweep_cutoff (JSNumber (Finite 5)) sweep_world = Finite 1700000000000
   \<and> stale_clients (JSNumber (Finite 5)) sweep_world = [''old'']
   \<and> map_of (store_zset (gc_sweep (JSNumber (Finite 5)) (releaseLock (Lock ''gc'') 1700000130001)
        sweep_world)) ''old'' = None
   \<and> map_of (store_zset sweep_world) ''new'' = Some 1700000009000
   \<and> untouched ''new'' ''/a'' sweep_world
        (gc_sweep (JSNumber (Finite 5)) (releaseLock (Lock ''gc'') 1700000130001) sweep_world)
   \<and> sweep_cutoff (JSNumber (Finite nearest_1_1)) rounding_world = Finite 1700000007800
   \<and> map_of (store_zset rounding_world) ''c'' = Some 1700000007800
   \<and> ''c'' \<in> set (stale_clients (JSNumber (Finite nearest_1_1)) rounding_world)"
proof -
  have av: "available sweep_world" by (simp add: sweep_world_def)
  have di: "distinct (map fst (store_zset sweep_world))" by (simp add: sweep_world_def)
  have nw: "map_of (store_zset sweep_world) ''new'' = Some 1700000009000"
    by (simp add: sweep_world_def)
  have cl: "clock sweep_world = 1700000010000" by (simp add: sweep_world_def)
  have fin: "Finite 5 \<noteq> NaN" by simp
  note p = gc_sweep_destroys_stale_then_releases [OF av di fin, where lockName = "''gc''"
             and expiry = 1700000130001 and channel = "''/a''" and cs = "[]" and k = 1
             and release = "releaseLock (Lock ''gc'') 1700000130001"
             and ?others1.0 = id and ?others2.0 = id]
  have "sweep_cutoff (JSNumber (Finite 5)) sweep_world
          = js_sub (js_int (clock sweep_world)) (js_mul (Finite 2000) (Finite 5))"
    by (rule p [where clientId = "''old''" and s = 0, THEN conjunct1])
  also have "\<dots> = Finite 1700000000000"
    by (simp add: cl js_int_def round_eval)
  finally have cut: "sweep_cutoff (JSNumber (Finite 5)) sweep_world = Finite 1700000000000" .
  have st: "stale_clients (JSNumber (Finite 5)) sweep_world = [''old'']"
    by (simp add: stale_clients_def cut) (simp add: sweep_world_def js_le_def js_int_def)
  have old: "map_of (store_zset (gc_sweep (JSNumber (Finite 5))
                (releaseLock (Lock ''gc'') 1700000130001) sweep_world)) ''old'' = None"
    using p [where clientId = "''old''" and s = 0, THEN conjunct2, THEN conjunct2, THEN conjunct2,
               THEN conjunct2, THEN conjunct2, THEN conjunct2, THEN conjunct1]
    by (simp add: st)
  have new: "untouched ''new'' ''/a'' sweep_world
        (gc_sweep (JSNumber (Finite 5)) (releaseLock (Lock ''gc'') 1700000130001) sweep_world)"
    using p [where clientId = "''new''" and s = 1700000009000, THEN conjunct2, THEN conjunct2,
               THEN conjunct2, THEN conjunct2, THEN conjunct2, THEN conjunct2, THEN conjunct2,
               THEN conjunct1]
    by (simp add: nw cut js_int_def)
  have rw: "rounding_world =
     \<lparr>store_zset = [(''c'', 1700000007800)],
      store_sets = (\<lambda>k. if k = Channels_of ''c'' then [''/a''] else []),
      store_lists = (\<lambda>k. []),
      store_strings = (\<lambda>k. None), available = True, clock = 1700000010000, trace = []\<rparr>"
    by (simp add: rounding_world_def boundary_world_def half_subscribed_world_def)
  have fin2: "Finite nearest_1_1 \<noteq> NaN" by simp
  have avr: "available rounding_world" and dir: "distinct (map fst (store_zset rounding_world))"
    by (simp_all add: rw)
  note r = gc_sweep_destroys_stale_then_releases [OF avr dir fin2, where clientId = "''c''"]
  have prod: "js_mul (Finite 2000) (Finite nearest_1_1) = Finite 2200"
    by (simp add: nearest_1_1_def round_eval)
  have diff: "js_sub (Finite 1700000010000) (Finite 2200) = Finite 1700000007800"
    by (simp add: round_eval)
  have "sweep_cutoff (JSNumber (Finite nearest_1_1)) rounding_world
          = js_sub (js_int (clock rounding_world)) (js_mul (Finite 2000) (Finite nearest_1_1))"
    by (rule r [THEN conjunct1])
  also have "\<dots> = js_sub (Finite 1700000010000) (Finite 2200)"
    by (simp only: prod) (simp add: rw js_int_def)
  finally have cut2:
    "sweep_cutoff (JSNumber (Finite nearest_1_1)) rounding_world = Finite 1700000007800"
    by (simp only: diff)
  have sc: "map_of (store_zset rounding_world) ''c'' = Some 1700000007800" by (simp add: rw)
  have st2: "''c'' \<in> set (stale_clients (JSNumber (Finite nearest_1_1)) rounding_world)"
    using r [THEN conjunct2, THEN conjunct1] by (simp add: sc cut2 js_le_def js_int_def)
  show ?thesis
    using av di cut st old nw new cut2 sc st2 by simp
qed

text \<open>
  Claim C2 as stated fails on the boundary: a session whose score is exactly the cutoff
  (a timeout of 5 s, for which the cutoff is exact) is not older than the cutoff, and the
  sweep destroys it.
\<close>

theorem gc_sweep_boundary_counterexample:
  "map_of (store_zset boundary_world) ''c'' = Some 1700000000000
   \<and> \<not> real_of_int 1700000000000 < real_of_int (clock boundary_world) - 1000 * 2 * 5
   \<and> sweep_cutoff (JSNumber (Finite 5)) boundary_world = Finite 1700000000000
   \<and> map_of (store_zset (gc (JSNumber (Finite 5)) id id boundary_world)) ''c'' = None
   \<and> Disconnect ''c'' \<in> set (trace (gc (JSNumber (Finite 5)) id id boundary_world))"
proof -
  have t: "toString 1700000130001 = ''1700000130001''"
    by (simp add: toString_def digits.simps digit_char_def)
  have w: "boundary_world =
     \<lparr>store_zset = [(''c'', 1700000000000)],
      store_sets = (\<lambda>k. if k = Channels_of ''c'' then [''/a''] else []),
      store_lists = (\<lambda>k. []),
      store_strings = (\<lambda>k. None), available = True, clock = 1700000010000, trace = []\<rparr>"
    by (simp add: boundary_world_def half_subscribed_world_def)
  have g: "gc (JSNumber (Finite 5)) id id boundary_world
      = gc_sweep (JSNumber (Finite 5)) (releaseLock (Lock ''gc'') 1700000130001)
          (boundary_world\<lparr>store_strings := (store_strings boundary_world)(Lock ''gc'' \<mapsto> ''1700000130001'')\<rparr>)"
    by (simp add: gc_def withLock_def command_def setNX_def LOCK_TIMEOUT_def Let_def t w)
  have c: "sweep_cutoff (JSNumber (Finite 5)) boundary_world = Finite 1700000000000"
    by (simp add: sweep_cutoff_eq w js_int_def round_eval)
  show ?thesis
    unfolding g c
    by (simp add: w gc_sweep_def sweep_cutoff_eq zRangeByScore_def js_le_def js_int_def round_eval
          destroyClient_def command_def exec_def sMembers_def destroy_commands_def zAdd_def
          sRem_def del_def zRem_def publish_close_def emit_def result_at_def key_exists_def
          releaseLock_def Let_def)
qed

end
